theory Spec2Isabelle
  imports Complex_Main "HOL-Library.Word"
begin

section \<open>Data model\<close>

text \<open>
  The program (\<^verbatim>\<open>src/python/main.py\<close>) reads a PETSIRD header, walks the replicated
  modules and their replicated detecting elements, and produces one coloured mesh per
  detecting element (or per module). NumPy arrays are modelled as lists (a vector) and
  lists of rows (a matrix); their entries, \<^verbatim>\<open>float32\<close>/\<^verbatim>\<open>float64\<close> in the program, are
  exact reals here, so rounding is outside the model. Every exception the program can
  raise is a value of \<open>error\<close>.
\<close>

datatype error = SystemExit string | ValueError | IndexError | NameError

type_synonym vec = "real list"
type_synonym mat = "real list list"

record RigidTransformation =
  matrix :: mat

record Coordinate =
  c :: vec

record BoxShape =
  corners :: "Coordinate list"

section \<open>NumPy operations used by the program\<close>

text \<open>
  The second dimension of a two-dimensional array given by its rows. The list of no rows
  stands for the empty array, of no columns.
\<close>

definition ncols :: "mat \<Rightarrow> nat" where
  "ncols m = (case m of [] \<Rightarrow> 0 | r # _ \<Rightarrow> length r)"

fun dot :: "vec \<Rightarrow> vec \<Rightarrow> real" where
  "dot (x # xs) (y # ys) = x * y + dot xs ys"
| "dot _ _ = 0"

definition column :: "mat \<Rightarrow> nat \<Rightarrow> vec" where
  "column m j = map (\<lambda>r. r ! j) m"

text \<open>The entries of a matrix product, for operands whose shapes agree.\<close>

definition mat_prod :: "mat \<Rightarrow> mat \<Rightarrow> mat" where
  "mat_prod a b = map (\<lambda>r. map (\<lambda>j. dot r (column b j)) [0..<ncols b]) a"

text \<open>\<^verbatim>\<open>np.matmul\<close> of two matrices: a (n,k) by (k',m) product raises unless k = k'.\<close>

definition matmul :: "mat \<Rightarrow> mat \<Rightarrow> error + mat" where
  "matmul a b = (if ncols a = length b then Inr (mat_prod a b) else Inl ValueError)"

text \<open>\<^verbatim>\<open>np.matmul\<close> of a matrix and a one-dimensional array.\<close>

definition matvec :: "mat \<Rightarrow> vec \<Rightarrow> error + vec" where
  "matvec a v = (if ncols a = length v then Inr (map (\<lambda>r. dot r v) a) else Inl ValueError)"

text \<open>\<^verbatim>\<open>np.vstack([m, row])\<close>: the row is appended; the column counts must agree.\<close>

definition vstack :: "mat \<Rightarrow> vec \<Rightarrow> error + mat" where
  "vstack m row = (if ncols m = length row then Inr (m @ [row]) else Inl ValueError)"

section \<open>Transform algebra\<close>

definition transform_to_mat44 :: "RigidTransformation \<Rightarrow> error + mat" where
  "transform_to_mat44 transform = vstack (matrix transform) [0, 0, 0, 1]"

definition mat44_to_transform :: "mat \<Rightarrow> RigidTransformation" where
  "mat44_to_transform m = \<lparr>matrix = take 3 m\<rparr>"

definition coordinate_to_homogeneous :: "Coordinate \<Rightarrow> vec" where
  "coordinate_to_homogeneous coord = c coord @ [1]"

definition homogeneous_to_coordinate :: "vec \<Rightarrow> Coordinate" where
  "homogeneous_to_coordinate hom_coord = \<lparr>c = take 3 hom_coord\<rparr>"

definition identity44 :: mat where
  "identity44 = [[1, 0, 0, 0], [0, 1, 0, 0], [0, 0, 1, 0], [0, 0, 0, 1]]"

text \<open>The body of the loop \<^verbatim>\<open>for t in ...: mat = np.matmul(transform_to_mat44(t), mat)\<close>.\<close>

fun mult_loop :: "RigidTransformation list \<Rightarrow> mat \<Rightarrow> error + mat" where
  "mult_loop [] m = Inr m"
| "mult_loop (t # ts) m =
     (case transform_to_mat44 t of
        Inl e \<Rightarrow> Inl e
      | Inr t44 \<Rightarrow>
          (case matmul t44 m of
             Inl e \<Rightarrow> Inl e
           | Inr m' \<Rightarrow> mult_loop ts m'))"

definition mult_transforms :: "RigidTransformation list \<Rightarrow> error + RigidTransformation" where
  "mult_transforms transforms =
     (case mult_loop (rev transforms) identity44 of
        Inl e \<Rightarrow> Inl e
      | Inr m \<Rightarrow> Inr (mat44_to_transform m))"

definition mult_transforms_coord ::
  "RigidTransformation list \<Rightarrow> Coordinate \<Rightarrow> error + Coordinate" where
  "mult_transforms_coord transforms coord =
     (case mult_transforms transforms of
        Inl e \<Rightarrow> Inl e
      | Inr t \<Rightarrow>
          (case transform_to_mat44 t of
             Inl e \<Rightarrow> Inl e
           | Inr t44 \<Rightarrow>
               (case matvec t44 (coordinate_to_homogeneous coord) of
                  Inl e \<Rightarrow> Inl e
                | Inr hom \<Rightarrow> Inr (homogeneous_to_coordinate hom))))"

text \<open>A list comprehension whose body can raise: the first exception ends it.\<close>

fun map_err :: "('a \<Rightarrow> error + 'b) \<Rightarrow> 'a list \<Rightarrow> error + 'b list" where
  "map_err f [] = Inr []"
| "map_err f (x # xs) =
     (case f x of
        Inl e \<Rightarrow> Inl e
      | Inr y \<Rightarrow> (case map_err f xs of Inl e \<Rightarrow> Inl e | Inr ys \<Rightarrow> Inr (y # ys)))"

definition transform_BoxShape :: "RigidTransformation \<Rightarrow> BoxShape \<Rightarrow> error + BoxShape" where
  "transform_BoxShape transform box_shape =
     (case map_err (mult_transforms_coord [transform]) (corners box_shape) of
        Inl e \<Rightarrow> Inl e
      | Inr cs \<Rightarrow> Inr \<lparr>corners = cs\<rparr>)"

text \<open>The shape a PETSIRD rigid transformation has: three rows of four entries.\<close>

definition is_3x4 :: "mat \<Rightarrow> bool" where
  "is_3x4 m = (length m = 3 \<and> list_all (\<lambda>r. length r = 4) m)"

section \<open>Meshes\<close>

text \<open>
  A mesh of the \<^verbatim>\<open>trimesh\<close> library: vertices, faces (vertex indices) and the colour
  assigned to its faces, an RGBA value of four unsigned bytes. The program gives every
  mesh one colour for all its faces.
\<close>

record Trimesh =
  vertices :: "vec list"
  faces :: "nat list list"
  face_colors :: "8 word list"

text \<open>\<^verbatim>\<open>np.round\<close>: to the nearest integer, a tie to the even one.\<close>

definition rint :: "real \<Rightarrow> int" where
  "rint x =
     (let f = \<lfloor>x\<rfloor> in
      if x - of_int f < 1 / 2 then f
      else if 1 / 2 < x - of_int f then f + 1
      else if even f then f else f + 1)"

text \<open>
  \<^verbatim>\<open>trimesh.Trimesh(vertices=..., faces=...)\<close> is called with the library's default
  \<^verbatim>\<open>process=True\<close>, which merges vertices: the vertices referenced by a face are kept,
  and those among them that agree after scaling by \<open>10^8\<close>, rounding and the cast to
  a signed 64-bit integer (the library's merge tolerance) become one vertex, the first
  of them, with the faces renumbered. A rounded value outside the 64-bit range is cast
  to the smallest 64-bit integer, so far-away vertices all get one key. With no vertex
  at all the library skips this step and keeps the faces as they are; a face that names
  a vertex that does not exist raises otherwise. The colour is the library's default
  until the program assigns one.
\<close>

definition astype_int64 :: "int \<Rightarrow> int" where
  "astype_int64 r = (if - (2 ^ 63) \<le> r \<and> r < 2 ^ 63 then r else - (2 ^ 63))"

definition merge_key :: "vec \<Rightarrow> int list" where
  "merge_key v = map (\<lambda>x. astype_int64 (rint (x * 10 ^ 8))) v"

definition default_color :: "8 word list" where
  "default_color = [102, 102, 102, 255]"

definition Trimesh_new :: "vec list \<Rightarrow> nat list list \<Rightarrow> error + Trimesh" where
  "Trimesh_new vs fs =
     (if vs = [] then Inr \<lparr>vertices = [], faces = fs, face_colors = default_color\<rparr>
      else if list_ex (list_ex (\<lambda>i. length vs \<le> i)) fs then Inl IndexError
      else
        let referenced = filter (\<lambda>i. i \<in> set (concat fs)) [0..<length vs];
            first = (\<lambda>i. hd (filter (\<lambda>j. merge_key (vs ! j) = merge_key (vs ! i)) referenced));
            kept = filter (\<lambda>i. first i = i) referenced;
            inverse = (\<lambda>i. length (filter (\<lambda>k. k < first i) kept))
        in Inr \<lparr>vertices = map (\<lambda>i. vs ! i) kept,
                faces = map (map inverse) fs,
                face_colors = default_color\<rparr>)"

definition box_faces :: "nat list list" where
  "box_faces =
     [[1, 0, 2], [0, 2, 3],
      [4, 5, 6], [4, 6, 7],
      [0, 3, 7], [0, 7, 4],
      [1, 2, 6], [1, 6, 5],
      [0, 1, 5], [0, 5, 4],
      [3, 2, 6], [3, 6, 7]]"

definition create_box_from_vertices :: "vec list \<Rightarrow> error + Trimesh" where
  "create_box_from_vertices vs = Trimesh_new vs box_faces"

section \<open>The header and its efficiency table\<close>

record BoxSolidVolume =
  shape :: BoxShape

record ReplicatedBoxSolidVolume =
  volume_object :: BoxSolidVolume
  volume_transforms :: "RigidTransformation list"

record DetectorModule =
  detecting_elements :: "ReplicatedBoxSolidVolume list"

record ReplicatedDetectorModule =
  module_object :: DetectorModule
  module_transforms :: "RigidTransformation list"

text \<open>
  The parts of the header the program reads:
  \<^verbatim>\<open>header.scanner.scanner_geometry.replicated_modules\<close> and
  \<^verbatim>\<open>header.scanner.detection_efficiencies.det_el_efficiencies\<close>, a table with one row
  per detecting element and one column per energy bin, or \<^verbatim>\<open>None\<close>.
\<close>

record Header =
  replicated_modules :: "ReplicatedDetectorModule list"
  det_el_efficiencies :: "mat option"

text \<open>
  \<^verbatim>\<open>np.mean\<close> of one row. Of a row with no entry NumPy gives \<^verbatim>\<open>nan\<close>, which the reals do
  not have: a table with no energy bin is outside the model.
\<close>

definition mean :: "vec \<Rightarrow> real" where
  "mean xs = sum_list xs / real (length xs)"

definition ones_like :: "mat \<Rightarrow> mat" where
  "ones_like table = map (map (\<lambda>_. 1)) table"

definition extract_detector_eff :: "bool \<Rightarrow> Header \<Rightarrow> error + vec option" where
  "extract_detector_eff show_det_eff header =
     (case det_el_efficiencies header of
        Some table \<Rightarrow>
          Inr (Some (map mean (if show_det_eff then table else ones_like table)))
      | None \<Rightarrow>
          if show_det_eff
          then Inl (SystemExit
            ''The scanner detection efficiencies is not defined. Correct this or remove the detector efficiency flag.'')
          else Inr None)"

section \<open>Colour assignment\<close>

definition crystal_color :: "8 word list" where
  "crystal_color = [255, 40, 40]"

text \<open>
  The random generator is a stream of raw draws. \<^verbatim>\<open>np.random.randint(low, high, size)\<close>
  gives \<open>n\<close> integers from \<open>low\<close> (included) to \<open>high\<close> (excluded).
\<close>

type_synonym rng = "nat \<Rightarrow> nat"

definition randint :: "int \<Rightarrow> int \<Rightarrow> nat \<Rightarrow> rng \<Rightarrow> int list \<times> rng" where
  "randint low high n g =
     (map (\<lambda>i. low + int (g i) mod (high - low)) [0..<n], (\<lambda>i. g (i + n)))"

text \<open>
  \<^verbatim>\<open>astype(np.uint8)\<close>: an integer is reduced modulo \<open>2^8\<close>. A float is truncated
  towards zero to a signed 32-bit integer, of which the low byte is kept (the unchecked
  narrowing cast); a float whose truncation is outside the 32-bit range gives 0.
\<close>

definition trunc :: "real \<Rightarrow> int" where
  "trunc x = (if 0 \<le> x then \<lfloor>x\<rfloor> else \<lceil>x\<rceil>)"

definition astype_uint8 :: "real \<Rightarrow> 8 word" where
  "astype_uint8 x =
     (if - (2 ^ 31) \<le> trunc x \<and> trunc x < 2 ^ 31 then word_of_int (trunc x) else 0)"

text \<open>\<^verbatim>\<open>crystal_color * e\<close>, then the four-entry array cast to bytes.\<close>

definition scaled_color :: "real \<Rightarrow> 8 word list" where
  "scaled_color e = map (\<lambda>ch. astype_uint8 (real (unat ch) * e)) crystal_color @ [50]"

definition set_detector_color ::
  "Trimesh \<Rightarrow> vec option \<Rightarrow> nat \<Rightarrow> nat \<Rightarrow> nat \<Rightarrow> bool \<Rightarrow> rng \<Rightarrow> error + Trimesh \<times> rng" where
  "set_detector_color det_mesh detector_efficiencies mod_i num_det_in_module det_i random_color g =
     (if random_color then
        (case randint 0 255 3 g of
           (color, g') \<Rightarrow> Inr (det_mesh\<lparr>face_colors := map word_of_int color @ [50]\<rparr>, g'))
      else
        (case detector_efficiencies of
           Some eff \<Rightarrow>
             if mod_i * num_det_in_module + det_i < length eff
             then Inr (det_mesh\<lparr>face_colors :=
                         scaled_color (eff ! (mod_i * num_det_in_module + det_i))\<rparr>, g)
             else Inl IndexError
         | None \<Rightarrow> Inr (det_mesh\<lparr>face_colors := crystal_color @ [50]\<rparr>, g)))"

text \<open>
  In \<open>set_module_color\<close> the flat efficiencies are reshaped to rows of
  \<^verbatim>\<open>len(det_el) * num_det_in_module\<close> entries, which raises when that width is zero or
  does not divide their number; row \<open>mod_i\<close> must exist.
\<close>

definition set_module_color ::
  "Trimesh \<Rightarrow> vec option \<Rightarrow> nat \<Rightarrow> nat \<Rightarrow> ReplicatedBoxSolidVolume list \<Rightarrow> bool \<Rightarrow> rng
     \<Rightarrow> error + Trimesh \<times> rng" where
  "set_module_color module_mesh detector_efficiencies mod_i num_det_in_module det_el random_color g =
     (if random_color then
        (case randint 0 255 3 g of
           (color, g') \<Rightarrow> Inr (module_mesh\<lparr>face_colors := map word_of_int color @ [50]\<rparr>, g'))
      else
        (case detector_efficiencies of
           Some eff \<Rightarrow>
             (let w = length det_el * num_det_in_module in
              if w = 0 \<or> length eff mod w \<noteq> 0 then Inl ValueError
              else if length eff div w \<le> mod_i then Inl IndexError
              else Inr (module_mesh\<lparr>face_colors :=
                          scaled_color (mean (take w (drop (mod_i * w) eff)))\<rparr>, g))
         | None \<Rightarrow> Inr (module_mesh\<lparr>face_colors := crystal_color @ [50]\<rparr>, g)))"

section \<open>Traversal\<close>

record Args =
  modules_only :: bool
  show_det_eff :: bool
  random_color :: bool
  fov :: "(real \<times> real) option"

text \<open>
  The variables the loops of the main program update: the list of meshes, the corners
  collected for the current module, \<^verbatim>\<open>num_det_in_module\<close> (unbound until the first
  group of detecting elements is entered, and never reset) and the random generator.
\<close>

record state =
  shapes :: "Trimesh list"
  module_vertices :: "vec list list"
  num_det_in_module :: "nat option"
  rng_state :: rng

text \<open>A \<^verbatim>\<open>for\<close> loop whose body can raise.\<close>

fun fold_err :: "('a \<Rightarrow> 's \<Rightarrow> error + 's) \<Rightarrow> 'a list \<Rightarrow> 's \<Rightarrow> error + 's" where
  "fold_err f [] s = Inr s"
| "fold_err f (x # xs) s =
     (case f x s of Inl e \<Rightarrow> Inl e | Inr s' \<Rightarrow> fold_err f xs s')"

text \<open>The body of \<^verbatim>\<open>for det_i in range(num_det_in_module)\<close>.\<close>

definition element_body ::
  "Args \<Rightarrow> vec option \<Rightarrow> nat \<Rightarrow> RigidTransformation \<Rightarrow> ReplicatedBoxSolidVolume \<Rightarrow> nat
     \<Rightarrow> nat \<times> RigidTransformation \<Rightarrow> state \<Rightarrow> error + state" where
  "element_body args detector_efficiencies mod_i mod_transform rep_volume n =
     (\<lambda>(det_i, transform) st.
        case mult_transforms [mod_transform, transform] of
          Inl e \<Rightarrow> Inl e
        | Inr t \<Rightarrow>
            (case transform_BoxShape t (shape (volume_object rep_volume)) of
               Inl e \<Rightarrow> Inl e
             | Inr box \<Rightarrow>
                 if \<not> modules_only args then
                   (case create_box_from_vertices (map c (corners box)) of
                      Inl e \<Rightarrow> Inl e
                    | Inr det_mesh \<Rightarrow>
                        (case set_detector_color det_mesh detector_efficiencies mod_i n det_i
                                (random_color args) (rng_state st) of
                           Inl e \<Rightarrow> Inl e
                         | Inr (det_mesh', g') \<Rightarrow>
                             Inr (st\<lparr>shapes := shapes st @ [det_mesh'], rng_state := g'\<rparr>)))
                 else Inr (st\<lparr>module_vertices := module_vertices st @ [map c (corners box)]\<rparr>)))"

text \<open>The body of \<^verbatim>\<open>for rep_volume in det_el\<close>.\<close>

definition volume_body ::
  "Args \<Rightarrow> vec option \<Rightarrow> nat \<Rightarrow> RigidTransformation \<Rightarrow> ReplicatedBoxSolidVolume
     \<Rightarrow> state \<Rightarrow> error + state" where
  "volume_body args detector_efficiencies mod_i mod_transform rep_volume st =
     (let n = length (volume_transforms rep_volume)
      in fold_err (element_body args detector_efficiencies mod_i mod_transform rep_volume n)
           (zip [0..<n] (volume_transforms rep_volume))
           (st\<lparr>num_det_in_module := Some n\<rparr>))"

text \<open>
  \<^verbatim>\<open>np.array(vertices).reshape((-1, 3))\<close>: the corners of all boxes of the module, in
  order. Boxes with different numbers of corners do not make an array. Every corner is a
  three-vector here, being the first three entries of a product with a four-row matrix.
\<close>

definition reshape_points :: "vec list list \<Rightarrow> error + vec list" where
  "reshape_points vss =
     (if list_ex (\<lambda>vs. length vs \<noteq> length (hd vss)) vss then Inl ValueError
      else Inr (concat vss))"

text \<open>
  The body of \<^verbatim>\<open>for mod_i in range(len(rep_module.transforms))\<close>. The convex hull is
  computed by \<^verbatim>\<open>trimesh.convex.convex_hull\<close>, a parameter of the model.
\<close>

definition module_body ::
  "(vec list \<Rightarrow> error + Trimesh) \<Rightarrow> Args \<Rightarrow> vec option \<Rightarrow> ReplicatedBoxSolidVolume list
     \<Rightarrow> nat \<times> RigidTransformation \<Rightarrow> state \<Rightarrow> error + state" where
  "module_body convex_hull args detector_efficiencies det_el =
     (\<lambda>(mod_i, mod_transform) st.
        case fold_err (volume_body args detector_efficiencies mod_i mod_transform) det_el
               (st\<lparr>module_vertices := []\<rparr>) of
          Inl e \<Rightarrow> Inl e
        | Inr st1 \<Rightarrow>
            if modules_only args then
              (case reshape_points (module_vertices st1) of
                 Inl e \<Rightarrow> Inl e
               | Inr vertices_reshaped \<Rightarrow>
                   (case convex_hull vertices_reshaped of
                      Inl e \<Rightarrow> Inl e
                    | Inr module_mesh \<Rightarrow>
                        (case num_det_in_module st1 of
                           None \<Rightarrow> Inl NameError
                         | Some n \<Rightarrow>
                             (case set_module_color module_mesh detector_efficiencies mod_i n
                                     det_el (random_color args) (rng_state st1) of
                                Inl e \<Rightarrow> Inl e
                              | Inr (module_mesh', g') \<Rightarrow>
                                  Inr (st1\<lparr>shapes := shapes st1 @ [module_mesh'],
                                           rng_state := g'\<rparr>)))))
            else Inr st1)"

text \<open>The body of \<^verbatim>\<open>for rep_module in ...replicated_modules\<close>.\<close>

definition rep_module_body ::
  "(vec list \<Rightarrow> error + Trimesh) \<Rightarrow> Args \<Rightarrow> vec option \<Rightarrow> ReplicatedDetectorModule
     \<Rightarrow> state \<Rightarrow> error + state" where
  "rep_module_body convex_hull args detector_efficiencies rep_module st =
     fold_err
       (module_body convex_hull args detector_efficiencies
          (detecting_elements (module_object rep_module)))
       (zip [0..<length (module_transforms rep_module)] (module_transforms rep_module))
       st"

text \<open>
  The main program from the header on: the result is the list of meshes handed to
  \<^verbatim>\<open>trimesh.util.concatenate\<close>, or the exception that ended the run. Reading the file and
  writing the result are outside the model; \<^verbatim>\<open>trimesh.creation.cylinder\<close> is a parameter.
\<close>

definition main ::
  "(vec list \<Rightarrow> error + Trimesh) \<Rightarrow> (real \<Rightarrow> real \<Rightarrow> Trimesh) \<Rightarrow> Args \<Rightarrow> Header \<Rightarrow> rng
     \<Rightarrow> error + Trimesh list" where
  "main convex_hull cylinder args header g =
     (case extract_detector_eff (show_det_eff args) header of
        Inl e \<Rightarrow> Inl e
      | Inr detector_efficiencies \<Rightarrow>
          (case fold_err (rep_module_body convex_hull args detector_efficiencies)
                  (replicated_modules header)
                  \<lparr>shapes = [], module_vertices = [], num_det_in_module = None,
                   rng_state = g\<rparr> of
             Inl e \<Rightarrow> Inl e
           | Inr st \<Rightarrow>
               Inr (shapes st @
                    (case fov args of None \<Rightarrow> [] | Some (radius, height) \<Rightarrow> [cylinder radius height]))))"

section \<open>Auxiliary functions of the proofs\<close>

text \<open>
  The entries of what the transform functions compute, without the shape checks: the
  three upper rows of the product of two promoted matrices, the action of a promoted
  matrix on a point, and the composition of a list of transformations.
\<close>

definition comp34 :: "mat \<Rightarrow> mat \<Rightarrow> mat" where
  "comp34 a r = take 3 (mat_prod (a @ [[0, 0, 0, 1]]) (r @ [[0, 0, 0, 1]]))"

definition act :: "mat \<Rightarrow> vec \<Rightarrow> vec" where
  "act m p = take 3 (map (\<lambda>r. dot r (p @ [1])) (m @ [[0, 0, 0, 1]]))"

definition id34 :: mat where
  "id34 = [[1, 0, 0, 0], [0, 1, 0, 0], [0, 0, 1, 0]]"

definition compose34 :: "RigidTransformation list \<Rightarrow> mat" where
  "compose34 ts = foldr (\<lambda>t acc. comp34 (matrix t) acc) ts id34"

text \<open>
  What the traversal computes, as plain functions: the world-space corners of one
  element (module transform outermost), the points collected for one module instance,
  a mesh with its colour removed, and the optional cylinder.
\<close>

definition world_corners :: "RigidTransformation \<Rightarrow> RigidTransformation \<Rightarrow> BoxShape \<Rightarrow> vec list" where
  "world_corners mod_transform transform box =
     map (\<lambda>p. act (matrix mod_transform) (act (matrix transform) (c p))) (corners box)"

definition module_points :: "RigidTransformation \<Rightarrow> ReplicatedBoxSolidVolume list \<Rightarrow> vec list" where
  "module_points mod_transform det_el =
     concat (concat (map (\<lambda>rv. map (\<lambda>t. world_corners mod_transform t (shape (volume_object rv)))
                                  (volume_transforms rv)) det_el))"

definition uncolored :: "Trimesh \<Rightarrow> Trimesh" where
  "uncolored m = m\<lparr>face_colors := []\<rparr>"

definition fov_solids :: "(real \<Rightarrow> real \<Rightarrow> Trimesh) \<Rightarrow> Args \<Rightarrow> Trimesh list" where
  "fov_solids cylinder args =
     (case fov args of None \<Rightarrow> [] | Some (radius, height) \<Rightarrow> [cylinder radius height])"

text \<open>
  The mesh a hull function returns for a set of points (an empty mesh where it raises),
  and the point sets of a scanner, one per module instance, in traversal order.
\<close>

definition hull_of :: "(vec list \<Rightarrow> error + Trimesh) \<Rightarrow> vec list \<Rightarrow> Trimesh" where
  "hull_of convex_hull pts =
     (case convex_hull pts of
        Inr m \<Rightarrow> m
      | Inl e \<Rightarrow> \<lparr>vertices = [], faces = [], face_colors = []\<rparr>)"

definition module_point_sets :: "ReplicatedDetectorModule list \<Rightarrow> vec list list" where
  "module_point_sets rms =
     concat (map (\<lambda>rm. map (\<lambda>m. module_points m (detecting_elements (module_object rm)))
                          (module_transforms rm)) rms)"

text \<open>
  Well-formed geometry, as the PETSIRD reader delivers it: 3x4 transforms, boxes of
  eight three-dimensional corners, and at least one group of detecting elements in a
  module.
\<close>

definition wf_volume :: "ReplicatedBoxSolidVolume \<Rightarrow> bool" where
  "wf_volume rv =
     (list_all (\<lambda>t. is_3x4 (matrix t)) (volume_transforms rv) \<and>
      length (corners (shape (volume_object rv))) = 8 \<and>
      list_all (\<lambda>p. length (c p) = 3) (corners (shape (volume_object rv))))"

definition wf_module :: "ReplicatedDetectorModule \<Rightarrow> bool" where
  "wf_module rm =
     (list_all (\<lambda>t. is_3x4 (matrix t)) (module_transforms rm) \<and>
      detecting_elements (module_object rm) \<noteq> [] \<and>
      list_all wf_volume (detecting_elements (module_object rm)))"

text \<open>
  Corners whose images under the mesh constructor's rounding cannot coincide: two
  points at least \<open>2 * 10^-8\<close> apart in some coordinate, and coordinates of magnitude at
  most \<open>10^6\<close>.
\<close>

definition far_apart :: "vec \<Rightarrow> vec \<Rightarrow> bool" where
  "far_apart p q = list_ex (\<lambda>(x, y). 2 \<le> \<bar>x - y\<bar> * 10 ^ 8) (zip p q)"

fun pairwise_far_apart :: "vec list \<Rightarrow> bool" where
  "pairwise_far_apart [] = True"
| "pairwise_far_apart (p # ps) = (list_all (far_apart p) ps \<and> pairwise_far_apart ps)"

definition bounded_coordinates :: "vec list \<Rightarrow> bool" where
  "bounded_coordinates vs = list_all (list_all (\<lambda>x. \<bar>x\<bar> \<le> 10 ^ 6)) vs"

section \<open>Example scanners\<close>

text \<open>
  A unit cube centred at the origin, in the corner order of the face table; a scanner
  of one module holding one group of two cubes, at the origin and shifted by
  \<open>(1, 0, 0)\<close>, with the sixteen corners the traversal collects for it; a cuboid given
  by two opposite corners; and a scanner of one module holding two groups of one cube
  each, with an efficiency table of two rows.
\<close>

definition translation :: "real \<Rightarrow> real \<Rightarrow> real \<Rightarrow> RigidTransformation" where
  "translation x y z = \<lparr>matrix = [[1, 0, 0, x], [0, 1, 0, y], [0, 0, 1, z]]\<rparr>"

definition unit_cube :: BoxShape where
  "unit_cube = \<lparr>corners =
     [\<lparr>c = [- 1 / 2, - 1 / 2, - 1 / 2]\<rparr>, \<lparr>c = [1 / 2, - 1 / 2, - 1 / 2]\<rparr>,
      \<lparr>c = [1 / 2, 1 / 2, - 1 / 2]\<rparr>, \<lparr>c = [- 1 / 2, 1 / 2, - 1 / 2]\<rparr>,
      \<lparr>c = [- 1 / 2, - 1 / 2, 1 / 2]\<rparr>, \<lparr>c = [1 / 2, - 1 / 2, 1 / 2]\<rparr>,
      \<lparr>c = [1 / 2, 1 / 2, 1 / 2]\<rparr>, \<lparr>c = [- 1 / 2, 1 / 2, 1 / 2]\<rparr>]\<rparr>"

definition two_instance_scanner :: Header where
  "two_instance_scanner =
     \<lparr>replicated_modules =
        [\<lparr>module_object = \<lparr>detecting_elements =
            [\<lparr>volume_object = \<lparr>shape = unit_cube\<rparr>,
              volume_transforms = [translation 0 0 0, translation 1 0 0]\<rparr>]\<rparr>,
          module_transforms = [translation 0 0 0]\<rparr>],
      det_el_efficiencies = None\<rparr>"

definition two_cubes_points :: "vec list" where
  "two_cubes_points =
     [[- 1 / 2, - 1 / 2, - 1 / 2], [1 / 2, - 1 / 2, - 1 / 2],
      [1 / 2, 1 / 2, - 1 / 2], [- 1 / 2, 1 / 2, - 1 / 2],
      [- 1 / 2, - 1 / 2, 1 / 2], [1 / 2, - 1 / 2, 1 / 2],
      [1 / 2, 1 / 2, 1 / 2], [- 1 / 2, 1 / 2, 1 / 2],
      [1 / 2, - 1 / 2, - 1 / 2], [3 / 2, - 1 / 2, - 1 / 2],
      [3 / 2, 1 / 2, - 1 / 2], [1 / 2, 1 / 2, - 1 / 2],
      [1 / 2, - 1 / 2, 1 / 2], [3 / 2, - 1 / 2, 1 / 2],
      [3 / 2, 1 / 2, 1 / 2], [1 / 2, 1 / 2, 1 / 2]]"

definition in_cuboid :: "vec \<Rightarrow> vec \<Rightarrow> vec \<Rightarrow> bool" where
  "in_cuboid lo hi p = (list_all2 (\<le>) lo p \<and> list_all2 (\<le>) p hi)"

definition cuboid_corners :: "vec \<Rightarrow> vec \<Rightarrow> vec list" where
  "cuboid_corners lo hi =
     [[x, y, z]. z \<leftarrow> [lo ! 2, hi ! 2], y \<leftarrow> [lo ! 1, hi ! 1], x \<leftarrow> [lo ! 0, hi ! 0]]"

definition two_group_scanner :: Header where
  "two_group_scanner =
     \<lparr>replicated_modules =
        [\<lparr>module_object = \<lparr>detecting_elements =
            [\<lparr>volume_object = \<lparr>shape = unit_cube\<rparr>, volume_transforms = [translation 0 0 0]\<rparr>,
             \<lparr>volume_object = \<lparr>shape = unit_cube\<rparr>, volume_transforms = [translation 2 0 0]\<rparr>]\<rparr>,
          module_transforms = [translation 0 0 0]\<rparr>],
      det_el_efficiencies = Some [[1], [1 / 2]]\<rparr>"

section \<open>Transform algebra: shapes and composition\<close>

lemma is_3x4_explicit:
  assumes "is_3x4 m"
  obtains a1 a2 a3 a4 b1 b2 b3 b4 d1 d2 d3 d4 where
    "m = [[a1, a2, a3, a4], [b1, b2, b3, b4], [d1, d2, d3, d4]]"
proof -
  from assms have l: "length m = 3" and r: "list_all (\<lambda>r. length r = 4) m"
    by (simp_all add: is_3x4_def)
  from l obtain r1 r2 r3 where m: "m = [r1, r2, r3]"
    by (auto simp: length_Suc_conv numeral_3_eq_3)
  from r m have "length r1 = 4" "length r2 = 4" "length r3 = 4" by simp_all
  then obtain a1 a2 a3 a4 b1 b2 b3 b4 d1 d2 d3 d4 where
    "r1 = [a1, a2, a3, a4]" "r2 = [b1, b2, b3, b4]" "r3 = [d1, d2, d3, d4]"
    by (auto simp: length_Suc_conv numeral_eq_Suc)
  with m show ?thesis using that by blast
qed

lemma vec3_explicit:
  assumes "length (v::vec) = 3"
  obtains x y z where "v = [x, y, z]"
  using assms by (auto simp: length_Suc_conv numeral_3_eq_3)

lemma upt4: "[0..<4] = [0, 1, 2, 3]"
  by (simp add: upt_rec)

lemma mat_prod_affine:
  assumes "is_3x4 a" "is_3x4 r"
  shows "mat_prod (a @ [[0, 0, 0, 1]]) (r @ [[0, 0, 0, 1]]) = comp34 a r @ [[0, 0, 0, 1]]"
proof -
  from assms(1) obtain a1 a2 a3 a4 b1 b2 b3 b4 d1 d2 d3 d4 where
    a: "a = [[a1, a2, a3, a4], [b1, b2, b3, b4], [d1, d2, d3, d4]]" by (rule is_3x4_explicit)
  from assms(2) obtain p1 p2 p3 p4 q1 q2 q3 q4 s1 s2 s3 s4 where
    r: "r = [[p1, p2, p3, p4], [q1, q2, q3, q4], [s1, s2, s3, s4]]" by (rule is_3x4_explicit)
  show ?thesis
    unfolding a r comp34_def mat_prod_def
    by (simp add: ncols_def column_def upt4)
qed

lemma is_3x4_comp34:
  assumes "is_3x4 a" "is_3x4 r"
  shows "is_3x4 (comp34 a r)"
proof -
  from assms(1) obtain a1 a2 a3 a4 b1 b2 b3 b4 d1 d2 d3 d4 where
    a: "a = [[a1, a2, a3, a4], [b1, b2, b3, b4], [d1, d2, d3, d4]]" by (rule is_3x4_explicit)
  from assms(2) obtain p1 p2 p3 p4 q1 q2 q3 q4 s1 s2 s3 s4 where
    r: "r = [[p1, p2, p3, p4], [q1, q2, q3, q4], [s1, s2, s3, s4]]" by (rule is_3x4_explicit)
  show ?thesis
    unfolding a r comp34_def mat_prod_def
    by (simp add: ncols_def column_def upt4 is_3x4_def)
qed

lemma act_comp34:
  assumes "is_3x4 a" "is_3x4 r" "length p = 3"
  shows "act (comp34 a r) p = act a (act r p)"
proof -
  from assms(1) obtain a1 a2 a3 a4 b1 b2 b3 b4 d1 d2 d3 d4 where
    a: "a = [[a1, a2, a3, a4], [b1, b2, b3, b4], [d1, d2, d3, d4]]" by (rule is_3x4_explicit)
  from assms(2) obtain p1 p2 p3 p4 q1 q2 q3 q4 s1 s2 s3 s4 where
    r: "r = [[p1, p2, p3, p4], [q1, q2, q3, q4], [s1, s2, s3, s4]]" by (rule is_3x4_explicit)
  from assms(3) obtain x y z where p: "p = [x, y, z]" by (rule vec3_explicit)
  show ?thesis
    unfolding a r p comp34_def mat_prod_def act_def
    by (simp add: ncols_def column_def upt4 algebra_simps)
qed

lemma is_3x4_id34: "is_3x4 id34"
  by (simp add: id34_def is_3x4_def)

lemma identity44_id34: "identity44 = id34 @ [[0, 0, 0, 1]]"
  by (simp add: identity44_def id34_def)

lemma transform_to_mat44_ok:
  "is_3x4 (matrix t) \<Longrightarrow> transform_to_mat44 t = Inr (matrix t @ [[0, 0, 0, 1]])"
  by (erule is_3x4_explicit) (simp add: transform_to_mat44_def vstack_def ncols_def)

lemma ncols_affine: "is_3x4 a \<Longrightarrow> ncols (a @ [row]) = 4"
  by (erule is_3x4_explicit) (simp add: ncols_def)

lemma matmul_affine:
  assumes "is_3x4 a" "is_3x4 r"
  shows "matmul (a @ [[0, 0, 0, 1]]) (r @ [[0, 0, 0, 1]]) = Inr (comp34 a r @ [[0, 0, 0, 1]])"
proof -
  have "ncols (a @ [[0, 0, 0, 1]]) = 4"
    using assms(1) by (rule ncols_affine)
  moreover have "length (r @ [[0, 0, 0, 1]]) = 4"
    using assms(2) by (simp add: is_3x4_def)
  ultimately show ?thesis
    by (simp add: matmul_def mat_prod_affine [OF assms])
qed

lemma mult_loop_append:
  "mult_loop (xs @ ys) m =
     (case mult_loop xs m of Inl e \<Rightarrow> Inl e | Inr m' \<Rightarrow> mult_loop ys m')"
  by (induction xs arbitrary: m) (auto split: sum.splits)

lemma is_3x4_compose34:
  "list_all (\<lambda>t. is_3x4 (matrix t)) ts \<Longrightarrow> is_3x4 (compose34 ts)"
  by (induction ts) (simp_all add: compose34_def is_3x4_id34 is_3x4_comp34)

lemma mult_loop_rev:
  "list_all (\<lambda>t. is_3x4 (matrix t)) ts \<Longrightarrow>
   mult_loop (rev ts) identity44 = Inr (compose34 ts @ [[0, 0, 0, 1]])"
proof (induction ts)
  case Nil
  then show ?case by (simp add: compose34_def identity44_id34)
next
  case (Cons t ts)
  then have t: "is_3x4 (matrix t)" and ts: "list_all (\<lambda>t. is_3x4 (matrix t)) ts"
    by simp_all
  have r: "is_3x4 (compose34 ts)" using ts by (rule is_3x4_compose34)
  have "compose34 (t # ts) = comp34 (matrix t) (compose34 ts)"
    by (simp add: compose34_def)
  then show ?case
    using Cons.IH [OF ts] transform_to_mat44_ok [OF t] matmul_affine [OF t r]
    by (simp add: mult_loop_append)
qed

lemma take3_affine: "is_3x4 m \<Longrightarrow> take 3 (m @ [[0, 0, 0, 1]]) = m"
  by (simp add: is_3x4_def)

lemma mult_transforms_ok:
  "list_all (\<lambda>t. is_3x4 (matrix t)) ts \<Longrightarrow>
   mult_transforms ts = Inr \<lparr>matrix = compose34 ts\<rparr>"
  using take3_affine [OF is_3x4_compose34, of ts]
  by (simp add: mult_transforms_def mult_loop_rev mat44_to_transform_def)

lemma matvec_affine:
  assumes "is_3x4 m" "length p = 3"
  shows "matvec (m @ [[0, 0, 0, 1]]) (p @ [1]) = Inr (act m p @ [1])"
proof -
  from assms(1) obtain a1 a2 a3 a4 b1 b2 b3 b4 d1 d2 d3 d4 where
    m: "m = [[a1, a2, a3, a4], [b1, b2, b3, b4], [d1, d2, d3, d4]]" by (rule is_3x4_explicit)
  from assms(2) obtain x y z where p: "p = [x, y, z]" by (rule vec3_explicit)
  show ?thesis unfolding m p by (simp add: matvec_def ncols_def act_def)
qed

lemma length_act: "is_3x4 m \<Longrightarrow> length (act m p) = 3"
  by (simp add: act_def is_3x4_def)

lemma mult_transforms_coord_ok:
  assumes "list_all (\<lambda>t. is_3x4 (matrix t)) ts" "length (c p) = 3"
  shows "mult_transforms_coord ts p = Inr \<lparr>c = act (compose34 ts) (c p)\<rparr>"
proof -
  have r: "is_3x4 (compose34 ts)" using assms(1) by (rule is_3x4_compose34)
  have "transform_to_mat44 \<lparr>matrix = compose34 ts\<rparr> = Inr (compose34 ts @ [[0, 0, 0, 1]])"
    using r by (simp add: transform_to_mat44_ok)
  moreover have "take 3 (act (compose34 ts) (c p) @ [1]) = act (compose34 ts) (c p)"
    using length_act [OF r] by simp
  ultimately show ?thesis
    using mult_transforms_ok [OF assms(1)] matvec_affine [OF r assms(2)]
    by (simp add: mult_transforms_coord_def coordinate_to_homogeneous_def
        homogeneous_to_coordinate_def)
qed

lemma act_id34: "length p = 3 \<Longrightarrow> act id34 p = p"
  by (erule vec3_explicit) (simp add: act_def id34_def)

lemma act_compose34:
  "list_all (\<lambda>t. is_3x4 (matrix t)) ts \<Longrightarrow> length p = 3 \<Longrightarrow>
   act (compose34 ts) p = foldr (\<lambda>t q. act (matrix t) q) ts p"
proof (induction ts)
  case Nil
  then show ?case by (simp add: compose34_def act_id34)
next
  case (Cons t ts)
  then have t: "is_3x4 (matrix t)" and ts: "list_all (\<lambda>t. is_3x4 (matrix t)) ts"
    by simp_all
  have "act (compose34 (t # ts)) p = act (matrix t) (act (compose34 ts) p)"
    using act_comp34 [OF t is_3x4_compose34 [OF ts] Cons.prems(2)]
    by (simp add: compose34_def)
  then show ?case using Cons.IH [OF ts Cons.prems(2)] by simp
qed

text \<open>
  Claim C10: for every 3x4 transform \<open>t\<close>, promotion appends the row \<open>(0, 0, 0, 1)\<close>
  (and does not raise), and demoting the promoted matrix gives \<open>t\<close> back exactly.
\<close>

theorem mat44_roundtrip:
  "is_3x4 (matrix t) \<Longrightarrow>
   transform_to_mat44 t = Inr (matrix t @ [[0, 0, 0, 1]]) \<and>
   mat44_to_transform (matrix t @ [[0, 0, 0, 1]]) = t"
  using take3_affine [of "matrix t"]
  by (simp add: transform_to_mat44_ok mat44_to_transform_def del: take_append)

theorem mat44_roundtrip_witness:
  "is_3x4 [[0, -1, 0, 5], [1, 0, 0, 6], [0, 0, 1, 7]] \<and>
   transform_to_mat44 \<lparr>matrix = [[0, -1, 0, 5], [1, 0, 0, 6], [0, 0, 1, 7]]\<rparr>
     = Inr [[0, -1, 0, 5], [1, 0, 0, 6], [0, 0, 1, 7], [0, 0, 0, 1]] \<and>
   mat44_to_transform [[0, -1, 0, 5], [1, 0, 0, 6], [0, 0, 1, 7], [0, 0, 0, 1]]
     = \<lparr>matrix = [[0, -1, 0, 5], [1, 0, 0, 6], [0, 0, 1, 7]]\<rparr>"
proof -
  have h: "is_3x4 (matrix \<lparr>matrix = [[0, -1, 0, 5], [1, 0, 0, 6], [0, 0, 1, 7]]\<rparr>)"
    by (simp add: is_3x4_def)
  show ?thesis using h mat44_roundtrip [OF h] by simp
qed

text \<open>
  Claim C4: for 3x4 transforms \<open>A\<close>, \<open>B\<close>, \<open>C\<close> and a point \<open>p\<close> of three coordinates,
  the composition of \<open>[A, B, C]\<close> applied to \<open>p\<close> (as one fused transform, or by
  \<open>mult_transforms_coord\<close> on the list) is \<open>A\<close> applied to \<open>B\<close> applied to \<open>C\<close> applied
  to \<open>p\<close>, and none of these raises; the composed transform is the demoted product of
  the promoted matrices taken in reverse list order, starting from the identity; and
  the composition of the empty list is the identity transform, which leaves \<open>p\<close> as it is.
\<close>

theorem compose_reverse_order:
  assumes "is_3x4 (matrix A)" and "is_3x4 (matrix B)" and "is_3x4 (matrix C)"
    and "length (c p) = 3"
  shows "(\<exists>T pc pb pa.
            mult_transforms [A, B, C] = Inr T \<and>
            mult_transforms_coord [T] p = Inr pa \<and>
            mult_transforms_coord [A, B, C] p = Inr pa \<and>
            mult_transforms_coord [C] p = Inr pc \<and>
            mult_transforms_coord [B] pc = Inr pb \<and>
            mult_transforms_coord [A] pb = Inr pa) \<and>
         mult_transforms [A, B, C] =
           Inr (mat44_to_transform
             (mat_prod (matrix A @ [[0, 0, 0, 1]])
               (mat_prod (matrix B @ [[0, 0, 0, 1]])
                 (mat_prod (matrix C @ [[0, 0, 0, 1]]) identity44)))) \<and>
         mult_transforms [] = Inr \<lparr>matrix = [[1, 0, 0, 0], [0, 1, 0, 0], [0, 0, 1, 0]]\<rparr> \<and>
         mult_transforms_coord [] p = Inr p"
proof -
  let ?T = "\<lparr>matrix = compose34 [A, B, C]\<rparr>"
  let ?pc = "\<lparr>c = act (matrix C) (c p)\<rparr>"
  let ?pb = "\<lparr>c = act (matrix B) (act (matrix C) (c p))\<rparr>"
  let ?pa = "\<lparr>c = act (matrix A) (act (matrix B) (act (matrix C) (c p)))\<rparr>"
  have abc: "list_all (\<lambda>t. is_3x4 (matrix t)) [A, B, C]" using assms by simp
  have T34: "is_3x4 (compose34 [A, B, C])" using abc by (rule is_3x4_compose34)
  have lc: "length (act (matrix C) (c p)) = 3" using assms(3) by (rule length_act)
  have lb: "length (act (matrix B) (act (matrix C) (c p))) = 3"
    using assms(2) by (rule length_act)
  have single: "act (compose34 [t]) q = act (matrix t) q"
    if "is_3x4 (matrix t)" "length q = 3" for t q
    using act_compose34 [of "[t]" q] that by simp
  have 1: "mult_transforms [A, B, C] = Inr ?T"
    using abc by (rule mult_transforms_ok)
  have 3: "mult_transforms_coord [A, B, C] p = Inr ?pa"
    using mult_transforms_coord_ok [OF abc assms(4)] act_compose34 [OF abc assms(4)]
    by simp
  have 2: "mult_transforms_coord [?T] p = Inr ?pa"
    using mult_transforms_coord_ok [of "[?T]" p] T34 assms(4)
      single [of ?T "c p"] act_compose34 [OF abc assms(4)]
    by simp
  have 4: "mult_transforms_coord [C] p = Inr ?pc"
    using mult_transforms_coord_ok [of "[C]" p] assms single [of C "c p"] by simp
  have 5: "mult_transforms_coord [B] ?pc = Inr ?pb"
    using mult_transforms_coord_ok [of "[B]" ?pc] assms lc
      single [of B "act (matrix C) (c p)"] by simp
  have 6: "mult_transforms_coord [A] ?pb = Inr ?pa"
    using mult_transforms_coord_ok [of "[A]" ?pb] assms lb
      single [of A "act (matrix B) (act (matrix C) (c p))"] by simp
  have 7: "mult_transforms [A, B, C] =
           Inr (mat44_to_transform
             (mat_prod (matrix A @ [[0, 0, 0, 1]])
               (mat_prod (matrix B @ [[0, 0, 0, 1]])
                 (mat_prod (matrix C @ [[0, 0, 0, 1]]) identity44))))"
  proof -
    have c1: "mat_prod (matrix C @ [[0, 0, 0, 1]]) identity44 = compose34 [C] @ [[0, 0, 0, 1]]"
      using mat_prod_affine [OF assms(3) is_3x4_id34]
      by (simp add: identity44_id34 compose34_def)
    have c34: "is_3x4 (compose34 [C])" using assms(3) by (simp add: is_3x4_compose34)
    have c2: "mat_prod (matrix B @ [[0, 0, 0, 1]]) (compose34 [C] @ [[0, 0, 0, 1]])
                = compose34 [B, C] @ [[0, 0, 0, 1]]"
      using mat_prod_affine [OF assms(2) c34] by (simp add: compose34_def)
    have b34: "is_3x4 (compose34 [B, C])" using assms(2,3) by (simp add: is_3x4_compose34)
    have c3: "mat_prod (matrix A @ [[0, 0, 0, 1]]) (compose34 [B, C] @ [[0, 0, 0, 1]])
                = compose34 [A, B, C] @ [[0, 0, 0, 1]]"
      using mat_prod_affine [OF assms(1) b34] by (simp add: compose34_def)
    show ?thesis
      using 1 take3_affine [OF T34] by (simp add: c1 c2 c3 mat44_to_transform_def)
  qed
  have 8: "mult_transforms [] = Inr \<lparr>matrix = [[1, 0, 0, 0], [0, 1, 0, 0], [0, 0, 1, 0]]\<rparr>"
    using mult_transforms_ok [of "[]"] by (simp add: compose34_def id34_def)
  have 9: "mult_transforms_coord [] p = Inr p"
    using mult_transforms_coord_ok [of "[]" p] assms(4) act_id34 [OF assms(4)]
    by (simp add: compose34_def)
  from 1 2 3 4 5 6 have "\<exists>T pc pb pa.
            mult_transforms [A, B, C] = Inr T \<and>
            mult_transforms_coord [T] p = Inr pa \<and>
            mult_transforms_coord [A, B, C] p = Inr pa \<and>
            mult_transforms_coord [C] p = Inr pc \<and>
            mult_transforms_coord [B] pc = Inr pb \<and>
            mult_transforms_coord [A] pb = Inr pa" by blast
  with 7 8 9 show ?thesis by blast
qed

theorem compose_reverse_order_witness:
  "is_3x4 (matrix \<lparr>matrix = [[1, 0, 0, 1], [0, 1, 0, 0], [0, 0, 1, 0]]\<rparr>) \<and>
   is_3x4 (matrix \<lparr>matrix = [[0, -1, 0, 0], [1, 0, 0, 0], [0, 0, 1, 0]]\<rparr>) \<and>
   is_3x4 (matrix \<lparr>matrix = [[1, 0, 0, 0], [0, 1, 0, 2], [0, 0, 1, 0]]\<rparr>) \<and>
   length (c \<lparr>c = [1, 2, 3]\<rparr>) = 3 \<and>
   mult_transforms_coord
     [\<lparr>matrix = [[1, 0, 0, 1], [0, 1, 0, 0], [0, 0, 1, 0]]\<rparr>,
      \<lparr>matrix = [[0, -1, 0, 0], [1, 0, 0, 0], [0, 0, 1, 0]]\<rparr>,
      \<lparr>matrix = [[1, 0, 0, 0], [0, 1, 0, 2], [0, 0, 1, 0]]\<rparr>] \<lparr>c = [1, 2, 3]\<rparr>
     = Inr \<lparr>c = [-3, 1, 3]\<rparr> \<and>
   mult_transforms_coord [\<lparr>matrix = [[1, 0, 0, 0], [0, 1, 0, 2], [0, 0, 1, 0]]\<rparr>]
     \<lparr>c = [1, 2, 3]\<rparr> = Inr \<lparr>c = [1, 4, 3]\<rparr> \<and>
   mult_transforms_coord [\<lparr>matrix = [[0, -1, 0, 0], [1, 0, 0, 0], [0, 0, 1, 0]]\<rparr>]
     \<lparr>c = [1, 4, 3]\<rparr> = Inr \<lparr>c = [-4, 1, 3]\<rparr> \<and>
   mult_transforms_coord [\<lparr>matrix = [[1, 0, 0, 1], [0, 1, 0, 0], [0, 0, 1, 0]]\<rparr>]
     \<lparr>c = [-4, 1, 3]\<rparr> = Inr \<lparr>c = [-3, 1, 3]\<rparr>"
proof -
  let ?A = "\<lparr>matrix = [[1, 0, 0, 1], [0, 1, 0, 0], [0, 0, 1, 0]]\<rparr>"
  let ?B = "\<lparr>matrix = [[0, -1, 0, 0], [1, 0, 0, 0], [0, 0, 1, 0]]\<rparr>"
  let ?C = "\<lparr>matrix = [[1, 0, 0, 0], [0, 1, 0, 2], [0, 0, 1, 0]]\<rparr>"
  let ?p = "\<lparr>c = [1, 2, 3]\<rparr>"
  have a: "is_3x4 (matrix ?A)" and b: "is_3x4 (matrix ?B)" and d: "is_3x4 (matrix ?C)"
    by (simp_all add: is_3x4_def)
  have l: "length (c ?p) = 3" by simp
  have pc: "mult_transforms_coord [?C] ?p = Inr \<lparr>c = [1, 4, 3]\<rparr>"
    using mult_transforms_coord_ok [of "[?C]" ?p] d
    by (simp add: compose34_def comp34_def id34_def act_def mat_prod_def ncols_def
        column_def upt4)
  have pb: "mult_transforms_coord [?B] \<lparr>c = [1, 4, 3]\<rparr> = Inr \<lparr>c = [-4, 1, 3]\<rparr>"
    using mult_transforms_coord_ok [of "[?B]" "\<lparr>c = [1, 4, 3]\<rparr>"] b
    by (simp add: compose34_def comp34_def id34_def act_def mat_prod_def ncols_def
        column_def upt4)
  have pa: "mult_transforms_coord [?A] \<lparr>c = [-4, 1, 3]\<rparr> = Inr \<lparr>c = [-3, 1, 3]\<rparr>"
    using mult_transforms_coord_ok [of "[?A]" "\<lparr>c = [-4, 1, 3]\<rparr>"] a
    by (simp add: compose34_def comp34_def id34_def act_def mat_prod_def ncols_def
        column_def upt4)
  from compose_reverse_order [OF a b d l] obtain qc qb qa where
    "mult_transforms_coord [?A, ?B, ?C] ?p = Inr qa"
    "mult_transforms_coord [?C] ?p = Inr qc"
    "mult_transforms_coord [?B] qc = Inr qb"
    "mult_transforms_coord [?A] qb = Inr qa"
    by blast
  with pc pb pa have "mult_transforms_coord [?A, ?B, ?C] ?p = Inr \<lparr>c = [-3, 1, 3]\<rparr>"
    by simp
  with a b d l pc pb pa show ?thesis by blast
qed

section \<open>Efficiency extraction: the flag and the table\<close>

text \<open>
  Claim C1: when the use-real-efficiency flag is set and the header has no efficiency
  table, the extractor exits with a message that names the missing detection
  efficiencies, and so does the whole run, whatever the geometry, the hull function and
  the random generator are: no mesh is built. The outcome is an error value, different
  from every successful result, the empty list of meshes included.
\<close>

theorem missing_efficiencies_abort:
  assumes "show_det_eff args" and "det_el_efficiencies header = None"
  shows "extract_detector_eff (show_det_eff args) header =
           Inl (SystemExit ''The scanner detection efficiencies is not defined. Correct this or remove the detector efficiency flag.'') \<and>
         main convex_hull cylinder args header g =
           Inl (SystemExit ''The scanner detection efficiencies is not defined. Correct this or remove the detector efficiency flag.'') \<and>
         main convex_hull cylinder args header g \<noteq> Inr [] \<and>
         (\<forall>solids. main convex_hull cylinder args header g \<noteq> Inr solids)"
  using assms by (simp add: main_def extract_detector_eff_def)

theorem missing_efficiencies_abort_witness:
  "show_det_eff \<lparr>modules_only = False, show_det_eff = True, random_color = False, fov = None\<rparr> \<and>
   det_el_efficiencies \<lparr>replicated_modules = [], det_el_efficiencies = None\<rparr> = None \<and>
   main (\<lambda>pts. Inl ValueError) (\<lambda>r h. \<lparr>vertices = [], faces = [], face_colors = []\<rparr>)
     \<lparr>modules_only = False, show_det_eff = True, random_color = False, fov = None\<rparr>
     \<lparr>replicated_modules = [], det_el_efficiencies = None\<rparr> (\<lambda>i. 0) =
     Inl (SystemExit ''The scanner detection efficiencies is not defined. Correct this or remove the detector efficiency flag.'') \<and>
   main (\<lambda>pts. Inl ValueError) (\<lambda>r h. \<lparr>vertices = [], faces = [], face_colors = []\<rparr>)
     \<lparr>modules_only = False, show_det_eff = True, random_color = False, fov = None\<rparr>
     \<lparr>replicated_modules = [], det_el_efficiencies = None\<rparr> (\<lambda>i. 0) \<noteq> Inr []"
proof -
  let ?args = "\<lparr>modules_only = False, show_det_eff = True, random_color = False, fov = None\<rparr>"
  let ?header = "\<lparr>replicated_modules = [], det_el_efficiencies = None\<rparr>"
  have a: "show_det_eff ?args" by simp
  have h: "det_el_efficiencies ?header = None" by simp
  show ?thesis
    using a h missing_efficiencies_abort [OF a h] by blast
qed

lemma mean_ones: "row \<noteq> [] \<Longrightarrow> mean (map (\<lambda>_. 1) row) = 1"
  by (simp add: mean_def sum_list_triv)

text \<open>
  Claim C2 as stated fails: with the flag off and a table present the extractor returns
  the row means of a table of ones, not the sentinel.
\<close>

theorem flag_false_table_present_counterexample:
  "extract_detector_eff False
     \<lparr>replicated_modules = [], det_el_efficiencies = Some [[1 / 2, 1 / 4]]\<rparr> = Inr (Some [1]) \<and>
   extract_detector_eff False
     \<lparr>replicated_modules = [], det_el_efficiencies = Some [[1 / 2, 1 / 4]]\<rparr> \<noteq> Inr None"
  by (simp add: extract_detector_eff_def ones_like_def mean_def)

text \<open>
  Claim C2, amended: with the flag off the extractor never raises; it returns the
  sentinel when the header has no table, and otherwise one value per row of the table,
  the mean of a row of ones of the same length, which is 1 for every row that has an
  energy bin.
\<close>

theorem flag_false_result:
  "extract_detector_eff False header =
     Inr (case det_el_efficiencies header of
            None \<Rightarrow> None
          | Some table \<Rightarrow> Some (map mean (ones_like table))) \<and>
   (list_all (\<lambda>row. row \<noteq> []) table \<longrightarrow>
      map mean (ones_like table) = replicate (length table) 1)"
proof -
  have "map mean (ones_like table) = replicate (length table) 1"
    if "list_all (\<lambda>row. row \<noteq> []) table"
    using that by (induction table) (simp_all add: ones_like_def mean_ones)
  then show ?thesis
    by (simp add: extract_detector_eff_def split: option.splits)
qed

theorem flag_false_result_witness:
  "list_all (\<lambda>row. row \<noteq> []) [[1 / 2, 1 / 4], [3, 1]] \<and>
   extract_detector_eff False
     \<lparr>replicated_modules = [], det_el_efficiencies = Some [[1 / 2, 1 / 4], [3, 1]]\<rparr> =
     Inr (Some [1, 1]) \<and>
   extract_detector_eff False \<lparr>replicated_modules = [], det_el_efficiencies = None\<rparr> = Inr None"
proof -
  have r: "list_all (\<lambda>row. row \<noteq> []) [[1 / 2, 1 / 4], [3, 1::real]]" by simp
  have "map mean (ones_like [[1 / 2, 1 / 4], [3, 1]]) = replicate (length [[1 / 2, 1 / 4], [3, 1::real]]) 1"
    using flag_false_result [of "\<lparr>replicated_modules = [], det_el_efficiencies = None\<rparr>" "[[1 / 2, 1 / 4], [3, 1]]"] r
    by blast
  then show ?thesis
    using flag_false_result [of "\<lparr>replicated_modules = [], det_el_efficiencies = Some [[1 / 2, 1 / 4], [3, 1]]\<rparr>" "[]"]
      flag_false_result [of "\<lparr>replicated_modules = [], det_el_efficiencies = None\<rparr>" "[]"]
    by (simp add: numeral_2_eq_2)
qed

section \<open>Colour assignment\<close>

lemma upt3: "[0..<3] = [0, 1, 2]"
  by (simp add: upt_rec)

lemma scaled_color_one: "scaled_color 1 = crystal_color @ [50]"
  by (simp add: scaled_color_def crystal_color_def astype_uint8_def trunc_def)

text \<open>
  Claim C7: with efficiency colouring active (a table of efficiencies, no random
  colouring), an element whose efficiency is exactly 1 gets the colour
  \<open>(255, 40, 40, 50)\<close>, the same result as with no efficiencies at all.
\<close>

theorem unit_efficiency_default_color:
  assumes "mod_i * n + det_i < length eff" and "eff ! (mod_i * n + det_i) = 1"
  shows "set_detector_color det_mesh (Some eff) mod_i n det_i False g =
           Inr (det_mesh\<lparr>face_colors := [255, 40, 40, 50]\<rparr>, g) \<and>
         set_detector_color det_mesh (Some eff) mod_i n det_i False g =
           set_detector_color det_mesh None mod_i n det_i False g"
  using assms by (simp add: set_detector_color_def scaled_color_one crystal_color_def)

theorem unit_efficiency_default_color_witness:
  "(1::nat) * 2 + 1 < length [1 / 2, 1 / 4, 1 / 8, 1 :: real] \<and>
   [1 / 2, 1 / 4, 1 / 8, 1 :: real] ! (1 * 2 + 1) = 1 \<and>
   set_detector_color \<lparr>vertices = [], faces = [], face_colors = default_color\<rparr>
     (Some [1 / 2, 1 / 4, 1 / 8, 1]) 1 2 1 False (\<lambda>i. 0) =
     Inr (\<lparr>vertices = [], faces = [], face_colors = [255, 40, 40, 50]\<rparr>, (\<lambda>i. 0))"
proof -
  have a: "(1::nat) * 2 + 1 < length [1 / 2, 1 / 4, 1 / 8, 1 :: real]" by simp
  have b: "[1 / 2, 1 / 4, 1 / 8, 1 :: real] ! (1 * 2 + 1) = 1" by simp
  show ?thesis
    using a b unit_efficiency_default_color [OF a b,
        of "\<lparr>vertices = [], faces = [], face_colors = default_color\<rparr>" "\<lambda>i. 0"]
    by simp
qed

lemma channel_below_255: "(word_of_int (int k mod 255) :: 8 word) \<noteq> 255"
proof -
  have "take_bit 8 (int k mod 255) = int k mod 255"
    by (rule take_bit_int_eq_self) simp_all
  moreover have "int k mod 255 \<noteq> 255"
    using pos_mod_bound [of 255 "int k"] by linarith
  ultimately show ?thesis
    by (simp add: word_eq_iff_unsigned [where ?'a = int] unsigned_of_int)
qed

text \<open>
  Claim C8, evaluated on the code: in random-colour mode the colour of an element and of
  a module is made of three draws of \<^verbatim>\<open>randint(0, 255)\<close> and alpha 50, whatever the
  efficiencies are; each draw is reduced below 255, so no channel is ever 255.
\<close>

theorem random_color_never_255:
  "set_detector_color det_mesh detector_efficiencies mod_i n det_i True g =
     Inr (det_mesh\<lparr>face_colors :=
            [word_of_int (int (g 0) mod 255), word_of_int (int (g 1) mod 255),
             word_of_int (int (g 2) mod 255), 50]\<rparr>, (\<lambda>i. g (i + 3))) \<and>
   set_module_color module_mesh detector_efficiencies mod_i n det_el True g =
     Inr (module_mesh\<lparr>face_colors :=
            [word_of_int (int (g 0) mod 255), word_of_int (int (g 1) mod 255),
             word_of_int (int (g 2) mod 255), 50]\<rparr>, (\<lambda>i. g (i + 3))) \<and>
   (word_of_int (int (g 0) mod 255) :: 8 word) \<noteq> 255 \<and>
   (word_of_int (int (g 1) mod 255) :: 8 word) \<noteq> 255 \<and>
   (word_of_int (int (g 2) mod 255) :: 8 word) \<noteq> 255"
  by (simp add: set_detector_color_def set_module_color_def randint_def upt3
      channel_below_255)







section \<open>Boxes from corners\<close>

lemma upt8: "[0..<8] = [0, 1, 2, 3, 4, 5, 6, 7]"
  by (simp add: upt_rec)

lemma filter_eq_index_upt: "i < n \<Longrightarrow> filter (\<lambda>j. j = i) [0..<n] = [i]"
proof -
  assume "i < n"
  then have "[0..<n] = [0..<i] @ [i] @ [Suc i..<n]"
    using upt_add_eq_append [of 0 i "n - i"] upt_conv_Cons [of i n] by simp
  then show ?thesis by simp
qed

lemma filter_less_upt: "i \<le> n \<Longrightarrow> filter (\<lambda>k. k < i) [0..<n] = [0..<i]"
proof -
  assume "i \<le> n"
  then have "[0..<n] = [0..<i] @ [i..<n]"
    using upt_add_eq_append [of 0 i "n - i"] by simp
  then show ?thesis by simp
qed

lemma filter_same_key:
  assumes "distinct (map f xs)" and "i < length xs"
  shows "filter (\<lambda>j. f (xs ! j) = f (xs ! i)) [0..<length xs] = [i]"
proof -
  have "f (xs ! j) = f (xs ! i) \<longleftrightarrow> j = i" if "j \<in> set [0..<length xs]" for j
    using that assms nth_eq_iff_index_eq [of "map f xs" j i] by auto
  then have "filter (\<lambda>j. f (xs ! j) = f (xs ! i)) [0..<length xs] = filter (\<lambda>j. j = i) [0..<length xs]"
    by (intro filter_cong) auto
  then show ?thesis using assms(2) by (simp add: filter_eq_index_upt)
qed

lemma Trimesh_new_distinct:
  assumes idx: "\<not> list_ex (list_ex (\<lambda>i. length vs \<le> i)) fs"
    and ref: "set [0..<length vs] \<subseteq> set (concat fs)"
    and keys: "distinct (map merge_key vs)"
  shows "Trimesh_new vs fs = Inr \<lparr>vertices = vs, faces = fs, face_colors = default_color\<rparr>"
proof -
  let ?n = "length vs"
  let ?first = "\<lambda>i. hd (filter (\<lambda>j. merge_key (vs ! j) = merge_key (vs ! i)) [0..<?n])"
  have referenced: "filter (\<lambda>i. i \<in> set (concat fs)) [0..<?n] = [0..<?n]"
    using ref by (auto simp: filter_id_conv)
  have first: "?first i = i" if "i < ?n" for i
    using filter_same_key [OF keys that] by simp
  have kept: "filter (\<lambda>i. ?first i = i) [0..<?n] = [0..<?n]"
    using first by (auto simp: filter_id_conv)
  have inverse: "length (filter (\<lambda>k. k < ?first i) [0..<?n]) = i" if "i < ?n" for i
    using first [OF that] that by (simp add: filter_less_upt)
  have "map (map (\<lambda>i. length (filter (\<lambda>k. k < ?first i) [0..<?n]))) fs = map (map (\<lambda>i. i)) fs"
  proof (intro map_cong refl)
    fix f i assume "f \<in> set fs" "i \<in> set f"
    with idx have "i < ?n" by (fastforce simp: list_ex_iff)
    then show "length (filter (\<lambda>k. k < ?first i) [0..<?n]) = i" by (rule inverse)
  qed
  then have faces: "map (map (\<lambda>i. length (filter (\<lambda>k. k < ?first i) [0..<?n]))) fs = fs"
    by simp
  show ?thesis
    unfolding Trimesh_new_def Let_def referenced kept faces
    using idx by (simp add: map_nth)
qed

lemma box_faces_index: "8 \<le> length vs \<Longrightarrow> \<not> list_ex (list_ex (\<lambda>i. length vs \<le> i)) box_faces"
  by (auto simp: box_faces_def)

lemma box_faces_referenced: "set [0..<8] \<subseteq> set (concat box_faces)"
  by (simp add: box_faces_def upt8)

lemma create_box_distinct:
  assumes "length vs = 8" and "distinct (map merge_key vs)"
  shows "create_box_from_vertices vs =
           Inr \<lparr>vertices = vs, faces = box_faces, face_colors = default_color\<rparr>"
  unfolding create_box_from_vertices_def
  using assms box_faces_index [of vs] box_faces_referenced
  by (intro Trimesh_new_distinct) simp_all

lemma rint_close: "\<bar>real_of_int (rint x) - x\<bar> \<le> 1 / 2"
proof -
  have "real_of_int \<lfloor>x\<rfloor> \<le> x" "x < real_of_int \<lfloor>x\<rfloor> + 1" by linarith+
  then show ?thesis by (auto simp: rint_def Let_def)
qed

lemma rint_apart:
  assumes "2 \<le> \<bar>a - b\<bar>"
  shows "rint a \<noteq> rint b"
proof
  assume "rint a = rint b"
  with rint_close [of a] rint_close [of b] have "\<bar>a - b\<bar> \<le> 1" by linarith
  with assms show False by linarith
qed

lemma astype_int64_bounded:
  assumes "\<bar>x\<bar> \<le> 10 ^ 6"
  shows "astype_int64 (rint (x * 10 ^ 8)) = rint (x * 10 ^ 8)"
proof -
  have "\<bar>x\<bar> \<le> 1000000" using assms by simp
  then have "\<bar>x * 100000000\<bar> \<le> 100000000000000" by (simp add: abs_mult)
  with rint_close [of "x * 100000000"]
  have "\<bar>real_of_int (rint (x * 100000000))\<bar> \<le> 100000000000001" by linarith
  then have "- 100000000000001 \<le> rint (x * 100000000) \<and>
             rint (x * 100000000) \<le> 100000000000001"
    by linarith
  then show ?thesis by (simp add: astype_int64_def)
qed

lemma far_apart_keys:
  "far_apart p q \<Longrightarrow> list_all (\<lambda>x. \<bar>x\<bar> \<le> 10 ^ 6) p \<Longrightarrow>
   list_all (\<lambda>x. \<bar>x\<bar> \<le> 10 ^ 6) q \<Longrightarrow> merge_key p \<noteq> merge_key q"
proof (induction p arbitrary: q)
  case Nil
  then show ?case by (simp add: far_apart_def)
next
  case (Cons x p)
  show ?case
  proof (cases q)
    case Nil
    with Cons.prems show ?thesis by (simp add: far_apart_def)
  next
    case (Cons y q')
    show ?thesis
    proof (cases "2 \<le> \<bar>x - y\<bar> * 10 ^ 8")
      case True
      then have "2 \<le> \<bar>x - y\<bar> * 100000000" by simp
      then have "2 \<le> \<bar>x * 10 ^ 8 - y * 10 ^ 8\<bar>" by (simp add: abs_if split: if_splits)
      then have "rint (x * 10 ^ 8) \<noteq> rint (y * 10 ^ 8)" by (rule rint_apart)
      moreover have "\<bar>x\<bar> \<le> 10 ^ 6" "\<bar>y\<bar> \<le> 10 ^ 6"
        using Cons.prems Cons by simp_all
      ultimately show ?thesis
        using Cons astype_int64_bounded [of x] astype_int64_bounded [of y]
        by (simp add: merge_key_def)
    next
      case False
      with Cons.prems Cons have "far_apart p q'"
        "list_all (\<lambda>x. \<bar>x\<bar> \<le> 10 ^ 6) p" "list_all (\<lambda>x. \<bar>x\<bar> \<le> 10 ^ 6) q'"
        by (simp_all add: far_apart_def)
      from Cons.IH [OF this] show ?thesis
        using Cons by (simp add: merge_key_def)
    qed
  qed
qed

lemma far_apart_distinct_keys:
  "pairwise_far_apart vs \<Longrightarrow> bounded_coordinates vs \<Longrightarrow> distinct (map merge_key vs)"
proof (induction vs)
  case Nil
  then show ?case by simp
next
  case (Cons p ps)
  then have far: "list_all (far_apart p) ps" and rest: "pairwise_far_apart ps"
    and bp: "list_all (\<lambda>x. \<bar>x\<bar> \<le> 10 ^ 6) p" and bps: "bounded_coordinates ps"
    by (simp_all add: bounded_coordinates_def)
  have "merge_key p \<noteq> merge_key q" if "q \<in> set ps" for q
  proof -
    from that far have "far_apart p q" by (simp add: list_all_iff)
    moreover from that bps have "list_all (\<lambda>x. \<bar>x\<bar> \<le> 10 ^ 6) q"
      by (simp add: bounded_coordinates_def list_all_iff)
    ultimately show ?thesis using bp by (simp add: far_apart_keys)
  qed
  then have "merge_key p \<notin> set (map merge_key ps)" by auto
  with Cons.IH [OF rest bps] show ?case by simp
qed

lemma create_box_faces:
  assumes "length vs = 8"
  shows "\<exists>mesh r. create_box_from_vertices vs = Inr mesh \<and>
           faces mesh = map (map r) box_faces \<and>
           length (vertices mesh) \<le> 8"
proof -
  have ne: "vs \<noteq> []" using assms by auto
  have idx: "\<not> list_ex (list_ex (\<lambda>i. length vs \<le> i)) box_faces"
    using assms box_faces_index [of vs] by simp
  let ?referenced = "filter (\<lambda>i. i \<in> set (concat box_faces)) [0..<length vs]"
  let ?first = "\<lambda>i. hd (filter (\<lambda>j. merge_key (vs ! j) = merge_key (vs ! i)) ?referenced)"
  let ?kept = "filter (\<lambda>i. ?first i = i) ?referenced"
  let ?inverse = "\<lambda>i. length (filter (\<lambda>k. k < ?first i) ?kept)"
  let ?mesh = "\<lparr>vertices = map (\<lambda>i. vs ! i) ?kept, faces = map (map ?inverse) box_faces,
                 face_colors = default_color\<rparr>"
  have c: "create_box_from_vertices vs = Inr ?mesh"
    using ne idx by (simp add: create_box_from_vertices_def Trimesh_new_def Let_def)
  have "length ?kept \<le> length ?referenced" by (rule length_filter_le)
  also have "\<dots> \<le> length [0..<length vs]" by (rule length_filter_le)
  finally have l: "length (vertices ?mesh) \<le> 8" using assms by simp
  have f: "faces ?mesh = map (map ?inverse) box_faces" by simp
  show ?thesis
    by (rule exI [of _ ?mesh], rule exI [of _ ?inverse]) (intro conjI c f l)
qed

text \<open>
  Claim C5 as stated fails: eight coincident corners give a mesh with one vertex.
\<close>

theorem box_coincident_corners_counterexample:
  "create_box_from_vertices
     [[1, 2, 3], [1, 2, 3], [1, 2, 3], [1, 2, 3], [1, 2, 3], [1, 2, 3], [1, 2, 3], [1, 2, 3]] =
     Inr \<lparr>vertices = [[1, 2, 3]],
          faces = map (map (\<lambda>i. 0)) box_faces,
          face_colors = default_color\<rparr>"
  by (simp add: create_box_from_vertices_def Trimesh_new_def box_faces_def upt8 Let_def)

text \<open>
  Claim C5, amended: for every list of eight corners the box is built without raising
  and has exactly twelve triangular faces, those of the fixed table with the vertex
  indices renumbered, and at most eight vertices; when the corners have coordinates of
  magnitude at most \<open>10^6\<close> and are pairwise at least \<open>2 * 10^-8\<close> apart in some
  coordinate, it has exactly the eight given vertices, in order, and the faces of the
  table as they are.
\<close>

theorem box_from_corners_mesh:
  assumes "length vs = 8"
  shows "\<exists>mesh r.
           create_box_from_vertices vs = Inr mesh \<and>
           faces mesh = map (map r) box_faces \<and>
           length (faces mesh) = 12 \<and>
           list_all (\<lambda>f. length f = 3) (faces mesh) \<and>
           length (vertices mesh) \<le> 8 \<and>
           (bounded_coordinates vs \<and> pairwise_far_apart vs \<longrightarrow>
              vertices mesh = vs \<and> faces mesh = box_faces)"
proof -
  from create_box_faces [OF assms] obtain mesh r where
    c: "create_box_from_vertices vs = Inr mesh"
    and f: "faces mesh = map (map r) box_faces"
    and l: "length (vertices mesh) \<le> 8"
    by blast
  have n: "length (faces mesh) = 12" using f by (simp add: box_faces_def)
  have t: "list_all (\<lambda>f. length f = 3) (faces mesh)" using f by (simp add: box_faces_def)
  have d: "bounded_coordinates vs \<and> pairwise_far_apart vs \<longrightarrow>
             vertices mesh = vs \<and> faces mesh = box_faces"
  proof
    assume "bounded_coordinates vs \<and> pairwise_far_apart vs"
    then have "distinct (map merge_key vs)" by (simp add: far_apart_distinct_keys)
    from create_box_distinct [OF assms this] c
    show "vertices mesh = vs \<and> faces mesh = box_faces" by auto
  qed
  show ?thesis
    by (rule exI [of _ mesh], rule exI [of _ r]) (intro conjI c f n t l d)
qed

theorem box_from_corners_mesh_witness:
  "length [[- 1 / 2, - 1 / 2, - 1 / 2], [1 / 2, - 1 / 2, - 1 / 2], [1 / 2, 1 / 2, - 1 / 2],
           [- 1 / 2, 1 / 2, - 1 / 2], [- 1 / 2, - 1 / 2, 1 / 2], [1 / 2, - 1 / 2, 1 / 2],
           [1 / 2, 1 / 2, 1 / 2], [- 1 / 2, 1 / 2, 1 / 2 :: real]] = 8 \<and>
   bounded_coordinates
          [[- 1 / 2, - 1 / 2, - 1 / 2], [1 / 2, - 1 / 2, - 1 / 2], [1 / 2, 1 / 2, - 1 / 2],
           [- 1 / 2, 1 / 2, - 1 / 2], [- 1 / 2, - 1 / 2, 1 / 2], [1 / 2, - 1 / 2, 1 / 2],
           [1 / 2, 1 / 2, 1 / 2], [- 1 / 2, 1 / 2, 1 / 2]] \<and>
   pairwise_far_apart
          [[- 1 / 2, - 1 / 2, - 1 / 2], [1 / 2, - 1 / 2, - 1 / 2], [1 / 2, 1 / 2, - 1 / 2],
           [- 1 / 2, 1 / 2, - 1 / 2], [- 1 / 2, - 1 / 2, 1 / 2], [1 / 2, - 1 / 2, 1 / 2],
           [1 / 2, 1 / 2, 1 / 2], [- 1 / 2, 1 / 2, 1 / 2]] \<and>
   (\<exists>mesh.
      create_box_from_vertices
          [[- 1 / 2, - 1 / 2, - 1 / 2], [1 / 2, - 1 / 2, - 1 / 2], [1 / 2, 1 / 2, - 1 / 2],
           [- 1 / 2, 1 / 2, - 1 / 2], [- 1 / 2, - 1 / 2, 1 / 2], [1 / 2, - 1 / 2, 1 / 2],
           [1 / 2, 1 / 2, 1 / 2], [- 1 / 2, 1 / 2, 1 / 2]] = Inr mesh \<and>
      vertices mesh =
          [[- 1 / 2, - 1 / 2, - 1 / 2], [1 / 2, - 1 / 2, - 1 / 2], [1 / 2, 1 / 2, - 1 / 2],
           [- 1 / 2, 1 / 2, - 1 / 2], [- 1 / 2, - 1 / 2, 1 / 2], [1 / 2, - 1 / 2, 1 / 2],
           [1 / 2, 1 / 2, 1 / 2], [- 1 / 2, 1 / 2, 1 / 2]] \<and>
      faces mesh = box_faces \<and>
      length (faces mesh) = 12)"
proof -
  let ?vs = "[[- 1 / 2, - 1 / 2, - 1 / 2], [1 / 2, - 1 / 2, - 1 / 2], [1 / 2, 1 / 2, - 1 / 2],
           [- 1 / 2, 1 / 2, - 1 / 2], [- 1 / 2, - 1 / 2, 1 / 2], [1 / 2, - 1 / 2, 1 / 2],
           [1 / 2, 1 / 2, 1 / 2], [- 1 / 2, 1 / 2, 1 / 2 :: real]]"
  have l: "length ?vs = 8" by simp
  have b: "bounded_coordinates ?vs" by (simp add: bounded_coordinates_def)
  have f: "pairwise_far_apart ?vs" by (simp add: far_apart_def)
  from box_from_corners_mesh [OF l] b f obtain mesh where
    m: "create_box_from_vertices ?vs = Inr mesh" "vertices mesh = ?vs"
      "faces mesh = box_faces" "length (faces mesh) = 12"
    by blast
  have "\<exists>mesh. create_box_from_vertices ?vs = Inr mesh \<and> vertices mesh = ?vs \<and>
          faces mesh = box_faces \<and> length (faces mesh) = 12"
    by (rule exI [of _ mesh]) (intro conjI m)
  then show ?thesis
    by (intro conjI l b f)
qed

lemma merge_key_halves:
  "merge_key [x, y, z] =
     [astype_int64 (rint (x * 100000000)), astype_int64 (rint (y * 100000000)),
      astype_int64 (rint (z * 100000000))]"
  by (simp add: merge_key_def)

section \<open>Traversal in per-module mode\<close>

lemma map_err_pure:
  "(\<And>x. x \<in> set xs \<Longrightarrow> f x = Inr (g x)) \<Longrightarrow> map_err f xs = Inr (map g xs)"
  by (induction xs) simp_all

lemma fold_err_pure:
  "(\<And>x s. x \<in> set xs \<Longrightarrow> f x s = Inr (g x s)) \<Longrightarrow> fold_err f xs s = Inr (fold g xs s)"
  by (induction xs arbitrary: s) simp_all

lemma act_single:
  assumes "is_3x4 (matrix t)" and "length q = 3"
  shows "act (compose34 [t]) q = act (matrix t) q"
  using act_compose34 [of "[t]" q] assms by simp

lemma transform_BoxShape_composed:
  assumes m: "is_3x4 (matrix mod_transform)" and t: "is_3x4 (matrix transform)"
    and cs: "list_all (\<lambda>p. length (c p) = 3) (corners box)"
  shows "transform_BoxShape \<lparr>matrix = compose34 [mod_transform, transform]\<rparr> box =
           Inr \<lparr>corners = map (\<lambda>p. \<lparr>c = act (matrix mod_transform) (act (matrix transform) (c p))\<rparr>)
                              (corners box)\<rparr>"
proof -
  let ?T = "\<lparr>matrix = compose34 [mod_transform, transform]\<rparr>"
  have mt: "list_all (\<lambda>t. is_3x4 (matrix t)) [mod_transform, transform]"
    using m t by simp
  have T: "is_3x4 (matrix ?T)" using is_3x4_compose34 [OF mt] by simp
  have "mult_transforms_coord [?T] p =
          Inr \<lparr>c = act (matrix mod_transform) (act (matrix transform) (c p))\<rparr>"
    if "p \<in> set (corners box)" for p
  proof -
    from that cs have l: "length (c p) = 3" by (simp add: list_all_iff)
    have "act (compose34 [?T]) (c p) = act (compose34 [mod_transform, transform]) (c p)"
      using act_single [OF T l] by simp
    also have "\<dots> = act (matrix mod_transform) (act (matrix transform) (c p))"
      using act_compose34 [OF mt l] by simp
    finally show ?thesis
      using mult_transforms_coord_ok [of "[?T]" p] T l by simp
  qed
  then show ?thesis
    by (simp add: transform_BoxShape_def map_err_pure)
qed

lemma element_body_eq:
  assumes "is_3x4 (matrix mod_transform)" and "is_3x4 (matrix transform)"
    and "list_all (\<lambda>p. length (c p) = 3) (corners (shape (volume_object rep_volume)))"
  shows "element_body args detector_efficiencies mod_i mod_transform rep_volume n
           (det_i, transform) st =
         (if \<not> modules_only args then
            (case create_box_from_vertices
                    (world_corners mod_transform transform (shape (volume_object rep_volume))) of
               Inl e \<Rightarrow> Inl e
             | Inr det_mesh \<Rightarrow>
                 (case set_detector_color det_mesh detector_efficiencies mod_i n det_i
                         (random_color args) (rng_state st) of
                    Inl e \<Rightarrow> Inl e
                  | Inr (det_mesh', g') \<Rightarrow>
                      Inr (st\<lparr>shapes := shapes st @ [det_mesh'], rng_state := g'\<rparr>)))
          else Inr (st\<lparr>module_vertices := module_vertices st @
                  [world_corners mod_transform transform (shape (volume_object rep_volume))]\<rparr>))"
proof -
  have mt: "mult_transforms [mod_transform, transform] =
              Inr \<lparr>matrix = compose34 [mod_transform, transform]\<rparr>"
    using assms(1,2) by (simp add: mult_transforms_ok)
  show ?thesis
    unfolding element_body_def
    by (simp add: mt transform_BoxShape_composed [OF assms] world_corners_def o_def)
qed

lemma fold_collect:
  "length ixs = length ts \<Longrightarrow>
   fold (\<lambda>(i, t) s. s\<lparr>module_vertices := module_vertices s @ [F t]\<rparr>) (zip ixs ts) st =
     st\<lparr>module_vertices := module_vertices st @ map F ts\<rparr>"
proof (induction ts arbitrary: ixs st)
  case Nil
  then show ?case by simp
next
  case (Cons t ts)
  then obtain i ixs' where "ixs = i # ixs'" "length ixs' = length ts"
    by (cases ixs) auto
  with Cons.IH [of ixs'] show ?case by simp
qed

lemma volume_body_modules_only:
  assumes mo: "modules_only args" and m: "is_3x4 (matrix mod_transform)"
    and wf: "wf_volume rep_volume"
  shows "volume_body args detector_efficiencies mod_i mod_transform rep_volume st =
           Inr (st\<lparr>num_det_in_module := Some (length (volume_transforms rep_volume)),
                   module_vertices := module_vertices st @
                     map (\<lambda>t. world_corners mod_transform t (shape (volume_object rep_volume)))
                       (volume_transforms rep_volume)\<rparr>)"
proof -
  let ?n = "length (volume_transforms rep_volume)"
  let ?F = "\<lambda>t. world_corners mod_transform t (shape (volume_object rep_volume))"
  let ?g = "\<lambda>(i, t) s. s\<lparr>module_vertices := module_vertices s @ [?F t]\<rparr>"
  have cs: "list_all (\<lambda>p. length (c p) = 3) (corners (shape (volume_object rep_volume)))"
    using wf by (simp add: wf_volume_def)
  have step: "element_body args detector_efficiencies mod_i mod_transform rep_volume ?n x s
                = Inr (?g x s)"
    if "x \<in> set (zip [0..<?n] (volume_transforms rep_volume))" for x s
  proof -
    obtain i t where x: "x = (i, t)" by (cases x)
    with that have "t \<in> set (volume_transforms rep_volume)" by (auto dest: set_zip_rightD)
    with wf have "is_3x4 (matrix t)" by (simp add: wf_volume_def list_all_iff)
    from element_body_eq [OF m this cs] mo show ?thesis by (simp add: x)
  qed
  have "fold_err (element_body args detector_efficiencies mod_i mod_transform rep_volume ?n)
          (zip [0..<?n] (volume_transforms rep_volume)) (st\<lparr>num_det_in_module := Some ?n\<rparr>)
        = Inr (fold ?g (zip [0..<?n] (volume_transforms rep_volume))
                 (st\<lparr>num_det_in_module := Some ?n\<rparr>))"
    using step by (rule fold_err_pure)
  then show ?thesis
    by (simp add: volume_body_def Let_def fold_collect)
qed

lemma det_el_loop_modules_only:
  assumes mo: "modules_only args" and m: "is_3x4 (matrix mod_transform)"
  shows "list_all wf_volume det_el \<Longrightarrow>
         fold_err (volume_body args detector_efficiencies mod_i mod_transform) det_el st =
           Inr (st\<lparr>num_det_in_module :=
                     (if det_el = [] then num_det_in_module st
                      else Some (length (volume_transforms (last det_el)))),
                   module_vertices := module_vertices st @
                     concat (map (\<lambda>rv. map (\<lambda>t. world_corners mod_transform t
                                                   (shape (volume_object rv)))
                                          (volume_transforms rv)) det_el)\<rparr>)"
proof (induction det_el arbitrary: st)
  case Nil
  then show ?case by simp
next
  case (Cons rv det_el)
  then have rv: "wf_volume rv" and rest: "list_all wf_volume det_el" by simp_all
  show ?case
    by (simp add: volume_body_modules_only [OF mo m rv] Cons.IH [OF rest])
qed

lemma reshape_points_boxes:
  "list_all (\<lambda>vs. length vs = 8) vss \<Longrightarrow> reshape_points vss = Inr (concat vss)"
  by (cases vss) (auto simp: reshape_points_def list_ex_iff list_all_iff)

lemma boxes_have_8_corners:
  "list_all wf_volume det_el \<Longrightarrow>
   list_all (\<lambda>vs. length vs = 8)
     (concat (map (\<lambda>rv. map (\<lambda>t. world_corners mod_transform t (shape (volume_object rv)))
                          (volume_transforms rv)) det_el))"
  by (induction det_el) (auto simp: wf_volume_def world_corners_def list_all_iff)

lemma is_3x4_translation: "is_3x4 (matrix (translation x y z))"
  by (simp add: translation_def is_3x4_def)

lemma act_translation: "act (matrix (translation x y z)) [u, v, w] = [u + x, v + y, w + z]"
  by (simp add: translation_def act_def)

lemma wf_two_instance_scanner: "list_all wf_module (replicated_modules two_instance_scanner)"
  by (simp add: two_instance_scanner_def wf_module_def wf_volume_def is_3x4_translation
      unit_cube_def)

lemma two_cubes_box:
  "length two_cubes_points = 16 \<and>
   list_all (in_cuboid [- 1 / 2, - 1 / 2, - 1 / 2] [3 / 2, 1 / 2, 1 / 2]) two_cubes_points \<and>
   list_all (\<lambda>q. q \<in> set two_cubes_points)
     (cuboid_corners [- 1 / 2, - 1 / 2, - 1 / 2] [3 / 2, 1 / 2, 1 / 2])"
  by (simp add: two_cubes_points_def in_cuboid_def cuboid_corners_def)

lemma set_module_color_keeps_mesh:
  "set_module_color module_mesh eff mod_i n det_el rc g = Inr (mesh', g') \<Longrightarrow>
   \<exists>col. mesh' = module_mesh\<lparr>face_colors := col\<rparr>"
  by (auto simp: set_module_color_def Let_def split: if_splits option.splits prod.splits)

lemma set_module_color_default:
  "\<exists>col g'. set_module_color module_mesh None mod_i n det_el rc g =
             Inr (module_mesh\<lparr>face_colors := col\<rparr>, g') \<and>
           (\<not> rc \<longrightarrow> col = [255, 40, 40, 50])"
proof (cases rc)
  case True
  obtain x1 x2 where "randint 0 255 3 g = (x1, x2)" by (cases "randint 0 255 3 g")
  with True have "set_module_color module_mesh None mod_i n det_el rc g =
      Inr (module_mesh\<lparr>face_colors := map word_of_int x1 @ [50]\<rparr>, x2)"
    by (simp add: set_module_color_def)
  with True show ?thesis by blast
next
  case False
  then have "set_module_color module_mesh None mod_i n det_el rc g =
      Inr (module_mesh\<lparr>face_colors := [255, 40, 40, 50]\<rparr>, g)"
    by (simp add: set_module_color_def crystal_color_def)
  then show ?thesis by blast
qed

lemma module_body_eq:
  assumes mo: "modules_only args" and m: "is_3x4 (matrix mod_transform)"
    and wf: "list_all wf_volume det_el" and ne: "det_el \<noteq> []"
  shows "module_body convex_hull args eff det_el (mod_i, mod_transform) st =
           (case convex_hull (module_points mod_transform det_el) of
              Inl e \<Rightarrow> Inl e
            | Inr module_mesh \<Rightarrow>
                (case set_module_color module_mesh eff mod_i
                        (length (volume_transforms (last det_el))) det_el
                        (random_color args) (rng_state st) of
                   Inl e \<Rightarrow> Inl e
                 | Inr (module_mesh', g') \<Rightarrow>
                     Inr (st\<lparr>module_vertices :=
                               concat (map (\<lambda>rv. map (\<lambda>t. world_corners mod_transform t
                                                   (shape (volume_object rv)))
                                          (volume_transforms rv)) det_el),
                             num_det_in_module := Some (length (volume_transforms (last det_el))),
                             shapes := shapes st @ [module_mesh'],
                             rng_state := g'\<rparr>)))"
proof -
  let ?boxes = "concat (map (\<lambda>rv. map (\<lambda>t. world_corners mod_transform t
                                                   (shape (volume_object rv)))
                                          (volume_transforms rv)) det_el)"
  let ?n = "length (volume_transforms (last det_el))"
  let ?st1 = "st\<lparr>module_vertices := [], num_det_in_module := Some ?n,
                  module_vertices := ?boxes\<rparr>"
  have loop: "fold_err (volume_body args eff mod_i mod_transform) det_el
                (st\<lparr>module_vertices := []\<rparr>) = Inr ?st1"
    using det_el_loop_modules_only [OF mo m wf, of eff mod_i "st\<lparr>module_vertices := []\<rparr>"] ne
    by simp
  have resh: "reshape_points ?boxes = Inr (module_points mod_transform det_el)"
    using reshape_points_boxes [OF boxes_have_8_corners [OF wf]]
    by (simp add: module_points_def)
  show ?thesis
    using mo by (simp add: module_body_def loop resh split: sum.splits prod.splits)
qed

lemma module_body_result:
  assumes mo: "modules_only args" and m: "is_3x4 (matrix mod_transform)"
    and wf: "list_all wf_volume det_el" and ne: "det_el \<noteq> []"
    and r: "module_body convex_hull args eff det_el (mod_i, mod_transform) st = Inr st'"
  shows "\<exists>col. shapes st' = shapes st @
           [(hull_of convex_hull (module_points mod_transform det_el))\<lparr>face_colors := col\<rparr>]"
proof -
  from r obtain mesh mesh' g' where
    h: "convex_hull (module_points mod_transform det_el) = Inr mesh"
    and k: "set_module_color mesh eff mod_i (length (volume_transforms (last det_el))) det_el
              (random_color args) (rng_state st) = Inr (mesh', g')"
    and s: "shapes st' = shapes st @ [mesh']"
    unfolding module_body_eq [OF mo m wf ne]
    by (auto split: sum.splits prod.splits)
  from set_module_color_keeps_mesh [OF k] obtain col where "mesh' = mesh\<lparr>face_colors := col\<rparr>"
    by blast
  with h s show ?thesis by (auto simp: hull_of_def)
qed

lemma module_body_succeeds:
  assumes mo: "modules_only args" and m: "is_3x4 (matrix mod_transform)"
    and wf: "list_all wf_volume det_el" and ne: "det_el \<noteq> []"
    and h: "\<not> isl (convex_hull (module_points mod_transform det_el))"
  shows "\<exists>st' col.
           module_body convex_hull args None det_el (mod_i, mod_transform) st = Inr st' \<and>
           shapes st' = shapes st @
             [(hull_of convex_hull (module_points mod_transform det_el))\<lparr>face_colors := col\<rparr>] \<and>
           (\<not> random_color args \<longrightarrow> col = [255, 40, 40, 50])"
proof -
  from h obtain mesh where hm: "convex_hull (module_points mod_transform det_el) = Inr mesh"
    by (cases "convex_hull (module_points mod_transform det_el)") auto
  obtain col g' where col:
    "set_module_color mesh None mod_i (length (volume_transforms (last det_el))) det_el
        (random_color args) (rng_state st) = Inr (mesh\<lparr>face_colors := col\<rparr>, g')"
    "\<not> random_color args \<longrightarrow> col = [255, 40, 40, 50]"
    using set_module_color_default by blast
  have "module_body convex_hull args None det_el (mod_i, mod_transform) st =
      Inr (st\<lparr>module_vertices :=
                concat (map (\<lambda>rv. map (\<lambda>t. world_corners mod_transform t
                                    (shape (volume_object rv)))
                           (volume_transforms rv)) det_el),
              num_det_in_module := Some (length (volume_transforms (last det_el))),
              shapes := shapes st @ [mesh\<lparr>face_colors := col\<rparr>],
              rng_state := g'\<rparr>)"
    unfolding module_body_eq [OF mo m wf ne] by (simp add: hm col(1))
  then show ?thesis
    using col(2) by (auto simp: hm hull_of_def)
qed

lemma module_loop_result:
  assumes mo: "modules_only args" and wf: "list_all wf_volume det_el" and ne: "det_el \<noteq> []"
  shows "length ixs = length ms \<Longrightarrow> list_all (\<lambda>t. is_3x4 (matrix t)) ms \<Longrightarrow>
         fold_err (module_body convex_hull args eff det_el) (zip ixs ms) st = Inr st' \<Longrightarrow>
         \<exists>new. shapes st' = shapes st @ new \<and>
           map uncolored new =
             map (\<lambda>m. uncolored (hull_of convex_hull (module_points m det_el))) ms"
proof (induction ms arbitrary: ixs st)
  case Nil
  then show ?case by simp
next
  case (Cons m ms)
  then obtain i ixs' where ixs: "ixs = i # ixs'" and len: "length ixs' = length ms"
    by (cases ixs) auto
  from Cons.prems have m: "is_3x4 (matrix m)" and ms: "list_all (\<lambda>t. is_3x4 (matrix t)) ms"
    by simp_all
  from Cons.prems(3) obtain st1 where
    b: "module_body convex_hull args eff det_el (i, m) st = Inr st1"
    and f: "fold_err (module_body convex_hull args eff det_el) (zip ixs' ms) st1 = Inr st'"
    by (auto simp: ixs split: sum.splits)
  from module_body_result [OF mo m wf ne b] obtain col where
    s1: "shapes st1 = shapes st @
           [(hull_of convex_hull (module_points m det_el))\<lparr>face_colors := col\<rparr>]"
    by blast
  from Cons.IH [OF len ms f] obtain new where
    s2: "shapes st' = shapes st1 @ new"
    and u2: "map uncolored new =
               map (\<lambda>m. uncolored (hull_of convex_hull (module_points m det_el))) ms"
    by blast
  let ?new = "(hull_of convex_hull (module_points m det_el))\<lparr>face_colors := col\<rparr> # new"
  have r2: "shapes st' = shapes st @ ?new" using s1 s2 by simp
  have r3: "map uncolored ?new =
      map (\<lambda>m. uncolored (hull_of convex_hull (module_points m det_el))) (m # ms)"
    using u2 by (simp add: uncolored_def)
  show ?case
    by (rule exI [of _ ?new]) (intro conjI r2 r3)
qed

lemma module_loop_succeeds:
  assumes mo: "modules_only args" and wf: "list_all wf_volume det_el" and ne: "det_el \<noteq> []"
  shows "length ixs = length ms \<Longrightarrow> list_all (\<lambda>t. is_3x4 (matrix t)) ms \<Longrightarrow>
         list_all (\<lambda>m. \<not> isl (convex_hull (module_points m det_el))) ms \<Longrightarrow>
         \<exists>st' new.
           fold_err (module_body convex_hull args None det_el) (zip ixs ms) st = Inr st' \<and>
           shapes st' = shapes st @ new \<and>
           (\<not> random_color args \<longrightarrow>
              new = map (\<lambda>m. (hull_of convex_hull (module_points m det_el))
                               \<lparr>face_colors := [255, 40, 40, 50]\<rparr>) ms)"
proof (induction ms arbitrary: ixs st)
  case Nil
  then show ?case by simp
next
  case (Cons m ms)
  then obtain i ixs' where ixs: "ixs = i # ixs'" and len: "length ixs' = length ms"
    by (cases ixs) auto
  from Cons.prems have m: "is_3x4 (matrix m)" and ms: "list_all (\<lambda>t. is_3x4 (matrix t)) ms"
    and h: "\<not> isl (convex_hull (module_points m det_el))"
    and hs: "list_all (\<lambda>m. \<not> isl (convex_hull (module_points m det_el))) ms"
    by simp_all
  from module_body_succeeds [where convex_hull = convex_hull and mod_i = i and st = st,
      OF mo m wf ne h] obtain st1 col where
    b: "module_body convex_hull args None det_el (i, m) st = Inr st1"
    and s1: "shapes st1 = shapes st @
               [(hull_of convex_hull (module_points m det_el))\<lparr>face_colors := col\<rparr>]"
    and c1: "\<not> random_color args \<longrightarrow> col = [255, 40, 40, 50]"
    by blast
  from Cons.IH [OF len ms hs, of st1] obtain st' new where
    f: "fold_err (module_body convex_hull args None det_el) (zip ixs' ms) st1 = Inr st'"
    and s2: "shapes st' = shapes st1 @ new"
    and c2: "\<not> random_color args \<longrightarrow>
              new = map (\<lambda>m. (hull_of convex_hull (module_points m det_el))
                               \<lparr>face_colors := [255, 40, 40, 50]\<rparr>) ms"
    by blast
  let ?new = "(hull_of convex_hull (module_points m det_el))\<lparr>face_colors := col\<rparr> # new"
  have r1: "fold_err (module_body convex_hull args None det_el) (zip ixs (m # ms)) st = Inr st'"
    using b f by (simp add: ixs)
  have r2: "shapes st' = shapes st @ ?new" using s1 s2 by simp
  have r4: "\<not> random_color args \<longrightarrow>
      ?new = map (\<lambda>m. (hull_of convex_hull (module_points m det_el))
                        \<lparr>face_colors := [255, 40, 40, 50]\<rparr>) (m # ms)"
    using c1 c2 by simp
  show ?case
    by (rule exI [of _ st'], rule exI [of _ ?new]) (intro conjI r1 r2 r4)
qed

lemma rep_module_loop_result:
  assumes mo: "modules_only args"
  shows "list_all wf_module rms \<Longrightarrow>
         fold_err (rep_module_body convex_hull args eff) rms st = Inr st' \<Longrightarrow>
         \<exists>new. shapes st' = shapes st @ new \<and>
           map uncolored new =
             map (\<lambda>pts. uncolored (hull_of convex_hull pts)) (module_point_sets rms)"
proof (induction rms arbitrary: st)
  case Nil
  then show ?case by (simp add: module_point_sets_def)
next
  case (Cons rm rms)
  let ?det_el = "detecting_elements (module_object rm)"
  from Cons.prems have wfm: "wf_module rm" and rest: "list_all wf_module rms" by simp_all
  from wfm have ms: "list_all (\<lambda>t. is_3x4 (matrix t)) (module_transforms rm)"
    and ne: "?det_el \<noteq> []" and wf: "list_all wf_volume ?det_el"
    by (simp_all add: wf_module_def)
  from Cons.prems(2) obtain st1 where
    b: "rep_module_body convex_hull args eff rm st = Inr st1"
    and f: "fold_err (rep_module_body convex_hull args eff) rms st1 = Inr st'"
    by (auto split: sum.splits)
  from b have b': "fold_err (module_body convex_hull args eff ?det_el)
        (zip [0..<length (module_transforms rm)] (module_transforms rm)) st = Inr st1"
    by (simp add: rep_module_body_def)
  from module_loop_result [OF mo wf ne _ ms b'] obtain new1 where
    s1: "shapes st1 = shapes st @ new1"
    and u1: "map uncolored new1 =
               map (\<lambda>m. uncolored (hull_of convex_hull (module_points m ?det_el)))
                 (module_transforms rm)"
    by auto
  from Cons.IH [OF rest f] obtain new2 where
    s2: "shapes st' = shapes st1 @ new2"
    and u2: "map uncolored new2 =
               map (\<lambda>pts. uncolored (hull_of convex_hull pts)) (module_point_sets rms)"
    by blast
  have r2: "shapes st' = shapes st @ (new1 @ new2)" using s1 s2 by simp
  have r3: "map uncolored (new1 @ new2) =
      map (\<lambda>pts. uncolored (hull_of convex_hull pts)) (module_point_sets (rm # rms))"
    using u1 u2 by (simp add: module_point_sets_def o_def)
  show ?case
    by (rule exI [of _ "new1 @ new2"]) (intro conjI r2 r3)
qed

lemma rep_module_loop_succeeds:
  assumes mo: "modules_only args"
  shows "list_all wf_module rms \<Longrightarrow>
         list_all (\<lambda>pts. \<not> isl (convex_hull pts)) (module_point_sets rms) \<Longrightarrow>
         \<exists>st' new.
           fold_err (rep_module_body convex_hull args None) rms st = Inr st' \<and>
           shapes st' = shapes st @ new \<and>
           (\<not> random_color args \<longrightarrow>
              new = map (\<lambda>pts. (hull_of convex_hull pts)\<lparr>face_colors := [255, 40, 40, 50]\<rparr>)
                      (module_point_sets rms))"
proof (induction rms arbitrary: st)
  case Nil
  then show ?case by (simp add: module_point_sets_def)
next
  case (Cons rm rms)
  let ?det_el = "detecting_elements (module_object rm)"
  from Cons.prems have wfm: "wf_module rm" and rest: "list_all wf_module rms" by simp_all
  from wfm have ms: "list_all (\<lambda>t. is_3x4 (matrix t)) (module_transforms rm)"
    and ne: "?det_el \<noteq> []" and wf: "list_all wf_volume ?det_el"
    by (simp_all add: wf_module_def)
  from Cons.prems(2) have
    h1: "list_all (\<lambda>m. \<not> isl (convex_hull (module_points m ?det_el))) (module_transforms rm)"
    and h2: "list_all (\<lambda>pts. \<not> isl (convex_hull pts)) (module_point_sets rms)"
    by (simp_all add: module_point_sets_def list_all_iff)
  from module_loop_succeeds [where convex_hull = convex_hull and st = st
      and ixs = "[0..<length (module_transforms rm)]", OF mo wf ne _ ms h1]
  obtain st1 new1 where
    b: "rep_module_body convex_hull args None rm st = Inr st1"
    and s1: "shapes st1 = shapes st @ new1"
    and c1: "\<not> random_color args \<longrightarrow>
               new1 = map (\<lambda>m. (hull_of convex_hull (module_points m ?det_el))
                                 \<lparr>face_colors := [255, 40, 40, 50]\<rparr>) (module_transforms rm)"
    unfolding rep_module_body_def by auto
  from Cons.IH [OF rest h2, of st1] obtain st' new2 where
    f: "fold_err (rep_module_body convex_hull args None) rms st1 = Inr st'"
    and s2: "shapes st' = shapes st1 @ new2"
    and c2: "\<not> random_color args \<longrightarrow>
               new2 = map (\<lambda>pts. (hull_of convex_hull pts)\<lparr>face_colors := [255, 40, 40, 50]\<rparr>)
                        (module_point_sets rms)"
    by blast
  have r1: "fold_err (rep_module_body convex_hull args None) (rm # rms) st = Inr st'"
    using b f by simp
  have r2: "shapes st' = shapes st @ (new1 @ new2)" using s1 s2 by simp
  have r4: "\<not> random_color args \<longrightarrow>
      new1 @ new2 = map (\<lambda>pts. (hull_of convex_hull pts)\<lparr>face_colors := [255, 40, 40, 50]\<rparr>)
                      (module_point_sets (rm # rms))"
    using c1 c2 by (simp add: module_point_sets_def o_def)
  show ?case
    by (rule exI [of _ st'], rule exI [of _ "new1 @ new2"]) (intro conjI r1 r2 r4)
qed

lemma length_module_point_sets:
  "length (module_point_sets rms) = sum_list (map (\<lambda>rm. length (module_transforms rm)) rms)"
  by (simp add: module_point_sets_def length_concat o_def)

lemma main_modules_only_result:
  assumes mo: "modules_only args"
    and wf: "list_all wf_module (replicated_modules header)"
    and r: "main convex_hull cylinder args header g = Inr solids"
  shows "\<exists>hulls.
           solids = hulls @ fov_solids cylinder args \<and>
           map uncolored hulls =
             map (\<lambda>pts. uncolored (hull_of convex_hull pts))
               (module_point_sets (replicated_modules header)) \<and>
           length hulls =
             sum_list (map (\<lambda>rm. length (module_transforms rm)) (replicated_modules header))"
proof -
  let ?st0 = "\<lparr>shapes = [], module_vertices = [], num_det_in_module = None, rng_state = g\<rparr>"
  from r obtain eff st' where
    f: "fold_err (rep_module_body convex_hull args eff) (replicated_modules header) ?st0 = Inr st'"
    and s: "solids = shapes st' @ fov_solids cylinder args"
    by (auto simp: main_def fov_solids_def split: sum.splits)
  from rep_module_loop_result [OF mo wf f] obtain new where
    n: "shapes st' = shapes ?st0 @ new"
    and u: "map uncolored new =
              map (\<lambda>pts. uncolored (hull_of convex_hull pts))
                (module_point_sets (replicated_modules header))"
    by blast
  have r1: "solids = new @ fov_solids cylinder args" using s n by simp
  have "length (map uncolored new) =
        length (map (\<lambda>pts. uncolored (hull_of convex_hull pts))
                  (module_point_sets (replicated_modules header)))"
    using u by simp
  then have r3: "length new =
      sum_list (map (\<lambda>rm. length (module_transforms rm)) (replicated_modules header))"
    by (simp add: length_module_point_sets)
  show ?thesis
    by (rule exI [of _ new]) (intro conjI r1 u r3)
qed

lemma main_modules_only_succeeds:
  assumes mo: "modules_only args"
    and wf: "list_all wf_module (replicated_modules header)"
    and ns: "\<not> show_det_eff args" and nt: "det_el_efficiencies header = None"
    and h: "list_all (\<lambda>pts. \<not> isl (convex_hull pts))
              (module_point_sets (replicated_modules header))"
  shows "\<exists>hulls.
           main convex_hull cylinder args header g = Inr (hulls @ fov_solids cylinder args) \<and>
           (\<not> random_color args \<longrightarrow>
              hulls = map (\<lambda>pts. (hull_of convex_hull pts)\<lparr>face_colors := [255, 40, 40, 50]\<rparr>)
                        (module_point_sets (replicated_modules header)))"
proof -
  let ?st0 = "\<lparr>shapes = [], module_vertices = [], num_det_in_module = None, rng_state = g\<rparr>"
  from rep_module_loop_succeeds [where convex_hull = convex_hull and st = ?st0, OF mo wf h]
  obtain st' new where
    f: "fold_err (rep_module_body convex_hull args None) (replicated_modules header) ?st0
          = Inr st'"
    and s: "shapes st' = shapes ?st0 @ new"
    and k: "\<not> random_color args \<longrightarrow>
              new = map (\<lambda>pts. (hull_of convex_hull pts)\<lparr>face_colors := [255, 40, 40, 50]\<rparr>)
                      (module_point_sets (replicated_modules header))"
    by blast
  have e: "extract_detector_eff (show_det_eff args) header = Inr None"
    using ns nt by (simp add: extract_detector_eff_def)
  have r1: "main convex_hull cylinder args header g = Inr (new @ fov_solids cylinder args)"
    using f s by (simp add: main_def e fov_solids_def)
  show ?thesis
    by (rule exI [of _ new]) (intro conjI r1 k)
qed

lemma module_point_sets_two_instance_scanner:
  "module_point_sets (replicated_modules two_instance_scanner) = [two_cubes_points]"
  by (simp add: module_point_sets_def two_instance_scanner_def module_points_def
      world_corners_def unit_cube_def act_translation two_cubes_points_def)

lemma module_points_two_cubes:
  "module_points (translation 0 0 0)
     [\<lparr>volume_object = \<lparr>shape = unit_cube\<rparr>,
       volume_transforms = [translation 0 0 0, translation 1 0 0]\<rparr>] = two_cubes_points"
  by (simp add: module_points_def world_corners_def unit_cube_def act_translation
      two_cubes_points_def)

lemma main_two_instance_scanner:
  "main convex_hull cylinder
     \<lparr>modules_only = True, show_det_eff = False, random_color = False, fov = None\<rparr>
     two_instance_scanner g =
     (case convex_hull two_cubes_points of
        Inl e \<Rightarrow> Inl e
      | Inr m \<Rightarrow> Inr [m\<lparr>face_colors := [255, 40, 40, 50]\<rparr>])"
proof -
  let ?args = "\<lparr>modules_only = True, show_det_eff = False, random_color = False, fov = None\<rparr>"
  let ?det_el = "[\<lparr>volume_object = \<lparr>shape = unit_cube\<rparr>,
                    volume_transforms = [translation 0 0 0, translation 1 0 0]\<rparr>]"
  have mo: "modules_only ?args" by simp
  have wf: "list_all wf_volume ?det_el"
    by (simp add: wf_volume_def is_3x4_translation unit_cube_def)
  have ne: "?det_el \<noteq> []" by simp
  have mb: "module_body convex_hull ?args None ?det_el (0, translation 0 0 0) st =
      (case convex_hull two_cubes_points of
         Inl e \<Rightarrow> Inl e
       | Inr m \<Rightarrow>
           Inr (st\<lparr>module_vertices :=
                     concat (map (\<lambda>rv. map (\<lambda>t. world_corners (translation 0 0 0) t
                                         (shape (volume_object rv)))
                                (volume_transforms rv)) ?det_el),
                   num_det_in_module := Some 2,
                   shapes := shapes st @ [m\<lparr>face_colors := [255, 40, 40, 50]\<rparr>]\<rparr>))" for st
    unfolding module_body_eq [OF mo is_3x4_translation wf ne] module_points_two_cubes
    by (simp add: set_module_color_def crystal_color_def split: sum.splits)
  show ?thesis
    by (simp add: main_def extract_detector_eff_def two_instance_scanner_def
        rep_module_body_def mb split: sum.splits)
qed

text \<open>
  Claim C6: in per-module mode and for well-formed geometry, every run that succeeds,
  in any colour mode and for any hull function, returns exactly one mesh per module
  instance, in traversal order (followed by the cylinder, if asked for): the convex hull
  of all the corners of that module's groups and instances, with a colour assigned. With
  no efficiency table and the flag off, the run succeeds whenever the hull function does
  on the modules' points, and without random colours every hull is coloured
  \<open>(255, 40, 40, 50)\<close>. For the scanner of one module with one group of two unit cubes
  at \<open>(0, 0, 0)\<close> and \<open>(1, 0, 0)\<close> the result is one mesh, the hull of the sixteen
  corners; these lie in the cuboid from \<open>(-1/2, -1/2, -1/2)\<close> to \<open>(3/2, 1/2, 1/2)\<close>, of
  size 2 by 1 by 1, and all eight corners of the cuboid are among them, so their convex
  hull is that cuboid.
\<close>

theorem per_module_hulls:
  "(modules_only args \<and> list_all wf_module (replicated_modules header) \<and>
    main convex_hull cylinder args header g = Inr solids \<longrightarrow>
      (\<exists>hulls.
         solids = hulls @ fov_solids cylinder args \<and>
         map uncolored hulls =
           map (\<lambda>pts. uncolored (hull_of convex_hull pts))
             (module_point_sets (replicated_modules header)) \<and>
         length hulls =
           sum_list (map (\<lambda>rm. length (module_transforms rm)) (replicated_modules header)))) \<and>
   (modules_only args \<and> list_all wf_module (replicated_modules header) \<and>
    \<not> show_det_eff args \<and> det_el_efficiencies header = None \<and>
    list_all (\<lambda>pts. \<not> isl (convex_hull pts)) (module_point_sets (replicated_modules header)) \<longrightarrow>
      (\<exists>hulls.
         main convex_hull cylinder args header g = Inr (hulls @ fov_solids cylinder args) \<and>
         (\<not> random_color args \<longrightarrow>
            hulls = map (\<lambda>pts. (hull_of convex_hull pts)\<lparr>face_colors := [255, 40, 40, 50]\<rparr>)
                      (module_point_sets (replicated_modules header))))) \<and>
   main convex_hull cylinder
     \<lparr>modules_only = True, show_det_eff = False, random_color = False, fov = None\<rparr>
     two_instance_scanner g =
     (case convex_hull two_cubes_points of
        Inl e \<Rightarrow> Inl e
      | Inr m \<Rightarrow> Inr [m\<lparr>face_colors := [255, 40, 40, 50]\<rparr>]) \<and>
   length two_cubes_points = 16 \<and>
   list_all (in_cuboid [- 1 / 2, - 1 / 2, - 1 / 2] [3 / 2, 1 / 2, 1 / 2]) two_cubes_points \<and>
   list_all (\<lambda>q. q \<in> set two_cubes_points)
     (cuboid_corners [- 1 / 2, - 1 / 2, - 1 / 2] [3 / 2, 1 / 2, 1 / 2])"
  using main_modules_only_result [of args header convex_hull cylinder g solids]
    main_modules_only_succeeds [of args header convex_hull cylinder g]
    main_two_instance_scanner [of convex_hull cylinder g] two_cubes_box
  by blast

theorem per_module_hulls_witness:
  "modules_only \<lparr>modules_only = True, show_det_eff = False, random_color = False,
                  fov = Some (3, 4)\<rparr> \<and>
   list_all wf_module (replicated_modules two_instance_scanner) \<and>
   main (\<lambda>pts. Inr \<lparr>vertices = pts, faces = [], face_colors = default_color\<rparr>)
     (\<lambda>r h. \<lparr>vertices = [[r, h]], faces = [], face_colors = default_color\<rparr>)
     \<lparr>modules_only = True, show_det_eff = False, random_color = False, fov = Some (3, 4)\<rparr>
     two_instance_scanner (\<lambda>i. i) =
     Inr [\<lparr>vertices = two_cubes_points, faces = [], face_colors = [255, 40, 40, 50]\<rparr>,
          \<lparr>vertices = [[3, 4]], faces = [], face_colors = default_color\<rparr>] \<and>
   \<not> show_det_eff \<lparr>modules_only = True, show_det_eff = False, random_color = False,
                     fov = Some (3, 4)\<rparr> \<and>
   det_el_efficiencies two_instance_scanner = None \<and>
   list_all (\<lambda>pts. \<not> isl (Inr \<lparr>vertices = pts, faces = [], face_colors = default_color\<rparr>
                              :: error + Trimesh))
     (module_point_sets (replicated_modules two_instance_scanner)) \<and>
   (\<exists>hulls.
      [\<lparr>vertices = two_cubes_points, faces = [], face_colors = [255, 40, 40, 50]\<rparr>,
       \<lparr>vertices = [[3, 4]], faces = [], face_colors = default_color\<rparr>] =
        hulls @ [\<lparr>vertices = [[3, 4]], faces = [], face_colors = default_color\<rparr>] \<and>
      length hulls = 1)"
proof -
  let ?args = "\<lparr>modules_only = True, show_det_eff = False, random_color = False,
                 fov = Some (3, 4)\<rparr>"
  let ?hull = "\<lambda>pts. Inr \<lparr>vertices = pts, faces = [], face_colors = default_color\<rparr>
                 :: error + Trimesh"
  let ?cyl = "\<lambda>r h :: real. \<lparr>vertices = [[r, h]], faces = [], face_colors = default_color\<rparr>"
  let ?solids = "[\<lparr>vertices = two_cubes_points, faces = [], face_colors = [255, 40, 40, 50]\<rparr>,
                  \<lparr>vertices = [[3, 4]], faces = [], face_colors = default_color\<rparr>]"
  have a: "modules_only ?args" and b: "\<not> show_det_eff ?args" and n: "\<not> random_color ?args"
    by simp_all
  have nt: "det_el_efficiencies two_instance_scanner = None"
    by (simp add: two_instance_scanner_def)
  have wf: "list_all wf_module (replicated_modules two_instance_scanner)"
    by (rule wf_two_instance_scanner)
  have h: "list_all (\<lambda>pts. \<not> isl (?hull pts))
             (module_point_sets (replicated_modules two_instance_scanner))"
    by (simp add: list_all_iff)
  from per_module_hulls [of ?args two_instance_scanner ?hull ?cyl "\<lambda>i. i" ?solids]
    a b n nt wf h
  obtain hulls where
    "main ?hull ?cyl ?args two_instance_scanner (\<lambda>i. i) = Inr (hulls @ fov_solids ?cyl ?args)"
    "hulls = map (\<lambda>pts. (hull_of ?hull pts)\<lparr>face_colors := [255, 40, 40, 50]\<rparr>)
               (module_point_sets (replicated_modules two_instance_scanner))"
    by blast
  then have m: "main ?hull ?cyl ?args two_instance_scanner (\<lambda>i. i) = Inr ?solids"
    by (simp add: module_point_sets_two_instance_scanner hull_of_def fov_solids_def)
  from per_module_hulls [of ?args two_instance_scanner ?hull ?cyl "\<lambda>i. i" ?solids] a wf m
  obtain hulls' where
    s: "?solids = hulls' @ fov_solids ?cyl ?args"
    and l: "length hulls' =
          sum_list (map (\<lambda>rm. length (module_transforms rm))
                     (replicated_modules two_instance_scanner))"
    by blast
  have s': "?solids = hulls' @ [\<lparr>vertices = [[3, 4]], faces = [], face_colors = default_color\<rparr>]"
    using s by (simp add: fov_solids_def)
  have l': "length hulls' = 1"
    using l by (simp add: two_instance_scanner_def)
  have "\<exists>hulls. ?solids =
        hulls @ [\<lparr>vertices = [[3, 4]], faces = [], face_colors = default_color\<rparr>] \<and>
      length hulls = 1"
    by (rule exI [of _ hulls']) (intro conjI s' l')
  then show ?thesis
    by (intro conjI a wf m b nt h)
qed

section \<open>Traversal in per-element mode on two groups\<close>

lemma rint_cube_keys:
  "astype_int64 (rint (- 50000000)) = - 50000000" "astype_int64 (rint 50000000) = 50000000"
  "astype_int64 (rint 150000000) = 150000000" "astype_int64 (rint 250000000) = 250000000"
  by (simp_all add: rint_def astype_int64_def)

lemma mean_single: "mean [x] = x"
  by (simp add: mean_def)

lemma scaled_color_half: "scaled_color (1 / 2) = [127, 20, 20, 50]"
  by (simp add: scaled_color_def crystal_color_def astype_uint8_def trunc_def)

lemma shifted_cube_box:
  "create_box_from_vertices (world_corners (translation 0 0 0) (translation 2 0 0) unit_cube) =
     Inr \<lparr>vertices = world_corners (translation 0 0 0) (translation 2 0 0) unit_cube,
          faces = box_faces, face_colors = default_color\<rparr>"
  "create_box_from_vertices (world_corners (translation 0 0 0) (translation 0 0 0) unit_cube) =
     Inr \<lparr>vertices = world_corners (translation 0 0 0) (translation 0 0 0) unit_cube,
          faces = box_faces, face_colors = default_color\<rparr>"
  by (rule create_box_distinct;
      simp add: world_corners_def unit_cube_def act_translation merge_key_halves rint_cube_keys)+

lemma element_body_two_group:
  assumes box: "create_box_from_vertices (world_corners (translation 0 0 0) t unit_cube) =
     Inr \<lparr>vertices = world_corners (translation 0 0 0) t unit_cube,
          faces = box_faces, face_colors = default_color\<rparr>"
    and t: "is_3x4 (matrix t)"
  shows "element_body
           \<lparr>modules_only = False, show_det_eff = True, random_color = False, fov = None\<rparr>
           (Some [1, 1 / 2]) 0 (translation 0 0 0)
           \<lparr>volume_object = \<lparr>shape = unit_cube\<rparr>, volume_transforms = ts\<rparr> n
           (0, t) st =
         Inr (st\<lparr>shapes := shapes st @
                [\<lparr>vertices = world_corners (translation 0 0 0) t unit_cube,
                  faces = box_faces, face_colors = [255, 40, 40, 50]\<rparr>]\<rparr>)"
proof -
  have cs: "list_all (\<lambda>p. length (c p) = 3)
              (corners (shape (volume_object
                 \<lparr>volume_object = \<lparr>shape = unit_cube\<rparr>, volume_transforms = ts\<rparr>)))"
    by (simp add: unit_cube_def)
  show ?thesis
    by (simp add: element_body_eq [OF is_3x4_translation t cs] box set_detector_color_def
        scaled_color_one crystal_color_def)
qed

text \<open>
  Claim C3, evaluated on the code: for one module instance with two groups of one
  element each and efficiencies \<open>[1, 1/2]\<close>, both elements are coloured with
  efficiency 0 of the table, \<open>(255, 40, 40, 50)\<close>; the running count of the claim
  gives the second element index 1 and the colour \<open>(127, 20, 20, 50)\<close>.
\<close>

theorem element_efficiency_index_is_group_local:
  "main convex_hull cylinder
     \<lparr>modules_only = False, show_det_eff = True, random_color = False, fov = None\<rparr>
     two_group_scanner g =
     Inr [\<lparr>vertices = world_corners (translation 0 0 0) (translation 0 0 0) unit_cube,
           faces = box_faces, face_colors = [255, 40, 40, 50]\<rparr>,
          \<lparr>vertices = world_corners (translation 0 0 0) (translation 2 0 0) unit_cube,
           faces = box_faces, face_colors = [255, 40, 40, 50]\<rparr>] \<and>
   extract_detector_eff True two_group_scanner = Inr (Some [1, 1 / 2]) \<and>
   scaled_color ([1, 1 / 2] ! 0) = [255, 40, 40, 50] \<and>
   scaled_color ([1, 1 / 2] ! 1) = [127, 20, 20, 50]"
proof -
  have e: "extract_detector_eff True two_group_scanner = Inr (Some [1, 1 / 2])"
    by (simp add: extract_detector_eff_def two_group_scanner_def mean_single)
  have "main convex_hull cylinder
     \<lparr>modules_only = False, show_det_eff = True, random_color = False, fov = None\<rparr>
     two_group_scanner g =
     Inr [\<lparr>vertices = world_corners (translation 0 0 0) (translation 0 0 0) unit_cube,
           faces = box_faces, face_colors = [255, 40, 40, 50]\<rparr>,
          \<lparr>vertices = world_corners (translation 0 0 0) (translation 2 0 0) unit_cube,
           faces = box_faces, face_colors = [255, 40, 40, 50]\<rparr>]"
    unfolding main_def
    by (simp add: e)
       (simp add: two_group_scanner_def rep_module_body_def module_body_def volume_body_def
          element_body_two_group [OF shifted_cube_box(1) is_3x4_translation]
          element_body_two_group [OF shifted_cube_box(2) is_3x4_translation])
  then show ?thesis
    using e by (simp add: scaled_color_one scaled_color_half crystal_color_def)
qed

end
